theory Spec2Isabelle
  imports Main "HOL-Library.Multiset"
begin

section \<open>Go strings, runes and the library routines the converter calls\<close>

text \<open>
  A Go string is a sequence of bytes, so it is a \<^typ>\<open>string\<close> here; \<open>len\<close> is
  \<^const>\<open>length\<close> and a slice \<open>s[:n]\<close> is \<^const>\<open>take\<close>. Runes are code points,
  kept as natural numbers. The routines of the Go standard library that the converter
  calls are written out from their documented behaviour where the development
  depends on them.
\<close>

definition byte :: "char \<Rightarrow> nat" where
  "byte c = of_char c"

definition isDigit :: "char \<Rightarrow> bool" where
  "isDigit c = (48 \<le> byte c \<and> byte c \<le> 57)"

definition digitVal :: "char \<Rightarrow> int" where
  "digitVal c = int (byte c) - 48"

definition decimalVal :: "string \<Rightarrow> int" where
  "decimalVal ds = foldl (\<lambda>acc c. acc * 10 + digitVal c) 0 ds"

text \<open>
  \<open>strconv.Atoi\<close>: an optional sign, then one or more decimal digits, and the value
  has to fit the 64-bit \<open>int\<close>; \<open>None\<close> is the non-nil error.
\<close>

definition Atoi :: "string \<Rightarrow> int option" where
  "Atoi s =
     (let neg = (s \<noteq> [] \<and> hd s = CHR ''-'');
          ds = (if s \<noteq> [] \<and> (hd s = CHR ''+'' \<or> hd s = CHR ''-'') then tl s else s)
      in if ds = [] \<or> \<not> list_all isDigit ds then None
         else let v = (if neg then - decimalVal ds else decimalVal ds)
              in if v < - (2 ^ 63) \<or> 2 ^ 63 - 1 < v then None else Some v)"

text \<open>\<open>strconv.ParseInt(s, 10, 64)\<close> accepts the same strings, with the same range.\<close>

definition ParseInt :: "string \<Rightarrow> int option" where
  "ParseInt s = Atoi s"

subsection \<open>UTF-8\<close>

definition RuneError :: nat where
  "RuneError = 65533"

definition contByte :: "nat \<Rightarrow> bool" where
  "contByte b = (128 \<le> b \<and> b \<le> 191)"

text \<open>
  \<open>utf8.DecodeRuneInString\<close>: the first rune of the string and its width in bytes.
  An empty string gives \<open>(RuneError, 0)\<close>, an encoding that is not valid UTF-8 gives
  \<open>(RuneError, 1)\<close>. The lead byte fixes the width and the range accepted for the
  second byte (which rules out overlong forms, surrogates and values above U+10FFFF).
\<close>

fun DecodeRuneInString :: "string \<Rightarrow> nat \<times> nat" where
  "DecodeRuneInString [] = (RuneError, 0)"
| "DecodeRuneInString (c # cs) =
     (let s0 = byte c in
      if s0 < 128 then (s0, 1)
      else if s0 < 194 \<or> 244 < s0 then (RuneError, 1)
      else
        let sz = (if s0 < 224 then 2 else if s0 < 240 then 3 else 4 :: nat);
            lo = (if s0 = 224 then 160 else if s0 = 240 then 144 else 128 :: nat);
            hi = (if s0 = 237 then 159 else if s0 = 244 then 143 else 191 :: nat)
        in if length cs + 1 < sz then (RuneError, 1)
           else
             let s1 = byte (cs ! 0) in
             if s1 < lo \<or> hi < s1 then (RuneError, 1)
             else if sz \<le> 2 then ((s0 mod 32) * 64 + s1 mod 64, 2)
             else
               let s2 = byte (cs ! 1) in
               if \<not> contByte s2 then (RuneError, 1)
               else if sz \<le> 3 then
                 ((s0 mod 16) * 4096 + (s1 mod 64) * 64 + s2 mod 64, 3)
               else
                 let s3 = byte (cs ! 2) in
                 if \<not> contByte s3 then (RuneError, 1)
                 else ((s0 mod 8) * 262144 + (s1 mod 64) * 4096
                         + (s2 mod 64) * 64 + s3 mod 64, 4))"

lemma DecodeRuneInString_width:
  "s \<noteq> [] \<Longrightarrow> 1 \<le> snd (DecodeRuneInString s) \<and> snd (DecodeRuneInString s) \<le> 4"
  by (cases s) (simp_all add: Let_def)

text \<open>
  \<open>for _, r := range s\<close> decodes the string rune by rune; an invalid byte is seen as
  \<open>RuneError\<close> and the loop moves on by one byte.
\<close>

function runes :: "string \<Rightarrow> nat list" where
  "runes s =
     (if s = [] then []
      else fst (DecodeRuneInString s) # runes (drop (snd (DecodeRuneInString s)) s))"
  by pat_completeness auto
termination
proof (relation "measure length")
  show "wf (measure length)" by simp
next
  fix s :: string
  assume "s \<noteq> []"
  then show "(drop (snd (DecodeRuneInString s)) s, s) \<in> measure length"
    using DecodeRuneInString_width [of s] by (cases s) auto
qed

declare runes.simps [simp del]

text \<open>\<open>utf8.EncodeRune\<close>, as \<open>bytes.Buffer.WriteRune\<close> uses it.\<close>

definition EncodeRune :: "nat \<Rightarrow> string" where
  "EncodeRune r =
     (if r < 128 then [char_of r]
      else if r < 2048 then [char_of (192 + r div 64), char_of (128 + r mod 64)]
      else if 1114111 < r \<or> (55296 \<le> r \<and> r \<le> 57343) then
        [char_of (239::nat), char_of (191::nat), char_of (189::nat)]
      else if r < 65536 then
        [char_of (224 + r div 4096), char_of (128 + (r div 64) mod 64),
         char_of (128 + r mod 64)]
      else
        [char_of (240 + r div 262144), char_of (128 + (r div 4096) mod 64),
         char_of (128 + (r div 64) mod 64), char_of (128 + r mod 64)])"

text \<open>\<open>unicode.IsSpace\<close>: the code points with the White_Space property.\<close>

definition IsSpace :: "nat \<Rightarrow> bool" where
  "IsSpace r =
     (r \<in> {9, 10, 11, 12, 13, 32, 133, 160, 5760, 8232, 8233, 8239, 8287, 12288}
      \<or> (8192 \<le> r \<and> r \<le> 8202))"

definition RuneStart :: "nat \<Rightarrow> bool" where
  "RuneStart b = (b div 64 \<noteq> 2)"

text \<open>
  \<open>utf8.DecodeLastRuneInString\<close>: it walks back at most three bytes to the nearest
  byte that can start a rune, decodes from there, and accepts the rune only if it
  ends where the string ends.
\<close>

definition DecodeLastRuneInString :: "string \<Rightarrow> nat \<times> nat" where
  "DecodeLastRuneInString s =
     (let e = length s in
      if e = 0 then (RuneError, 0)
      else
        let r = byte (s ! (e - 1)) in
        if r < 128 then (r, 1)
        else
          let lim = e - 4;
              start = (case filter (\<lambda>i. RuneStart (byte (s ! i))) (rev [lim ..< e - 1]) of
                         [] \<Rightarrow> lim - 1
                       | i # _ \<Rightarrow> i);
              d = DecodeRuneInString (drop start s)
          in if start + snd d \<noteq> e then (RuneError, 1) else d)"

lemma DecodeLastRuneInString_width:
  assumes "s \<noteq> []"
  shows "1 \<le> snd (DecodeLastRuneInString s) \<and> snd (DecodeLastRuneInString s) \<le> length s"
proof -
  let ?e = "length s"
  let ?lim = "?e - 4"
  let ?start = "case filter (\<lambda>i. RuneStart (byte (s ! i))) (rev [?lim ..< ?e - 1]) of
                  [] \<Rightarrow> ?lim - 1 | i # _ \<Rightarrow> i"
  have e: "0 < ?e" using assms by simp
  have "?start < ?e"
  proof (cases "filter (\<lambda>i. RuneStart (byte (s ! i))) (rev [?lim ..< ?e - 1])")
    case Nil
    then show ?thesis using e by simp
  next
    case (Cons i rest)
    then have "i \<in> set (filter (\<lambda>i. RuneStart (byte (s ! i))) (rev [?lim ..< ?e - 1]))"
      by simp
    then have "i < ?e - 1" by auto
    then show ?thesis using Cons by simp
  qed
  then show ?thesis
    using e by (auto simp: DecodeLastRuneInString_def Let_def)
qed

text \<open>
  \<open>strings.TrimSpace\<close> is \<open>TrimFunc(s, unicode.IsSpace)\<close>: white space runes are
  taken off the front, then off the back.
\<close>

function trimLeftSpace :: "string \<Rightarrow> string" where
  "trimLeftSpace s =
     (if s = [] then []
      else if IsSpace (fst (DecodeRuneInString s))
        then trimLeftSpace (drop (snd (DecodeRuneInString s)) s)
      else s)"
  by pat_completeness auto
termination
proof (relation "measure length")
  show "wf (measure length)" by simp
next
  fix s :: string
  assume "s \<noteq> []"
  then show "(drop (snd (DecodeRuneInString s)) s, s) \<in> measure length"
    using DecodeRuneInString_width [of s] by (cases s) auto
qed

declare trimLeftSpace.simps [simp del]

function trimRightSpace :: "string \<Rightarrow> string" where
  "trimRightSpace s =
     (if s = [] then []
      else if IsSpace (fst (DecodeLastRuneInString s))
        then trimRightSpace (take (length s - snd (DecodeLastRuneInString s)) s)
      else s)"
  by pat_completeness auto
termination
proof (relation "measure length")
  show "wf (measure length)" by simp
next
  fix s :: string
  assume "s \<noteq> []"
  then show "(take (length s - snd (DecodeLastRuneInString s)) s, s) \<in> measure length"
    using DecodeLastRuneInString_width [of s] by (cases s) auto
qed

declare trimRightSpace.simps [simp del]

definition TrimSpace :: "string \<Rightarrow> string" where
  "TrimSpace s = trimRightSpace (trimLeftSpace s)"

text \<open>\<open>strings.HasPrefix\<close> and \<open>strings.TrimPrefix\<close>.\<close>

definition HasPrefix :: "string \<Rightarrow> string \<Rightarrow> bool" where
  "HasPrefix s pre = (take (length pre) s = pre)"

definition TrimPrefix :: "string \<Rightarrow> string \<Rightarrow> string" where
  "TrimPrefix s pre = (if HasPrefix s pre then drop (length pre) s else s)"

text \<open>A read of a Go map: a missing key reads as the empty string.\<close>

definition lookupField :: "(string \<rightharpoonup> string) \<Rightarrow> string \<Rightarrow> string" where
  "lookupField m k = (case m k of None \<Rightarrow> [] | Some v \<Rightarrow> v)"

section \<open>Condition evaluator\<close>

text \<open>
  The library routines whose tables and number formats are not written out here are
  parameters: \<open>strconv.ParseFloat\<close> (the value it returns and whether the error is
  nil), the order of \<open>float64\<close>, \<open>time.Parse\<close> (whether the error is nil),
  \<open>unicode.IsLetter\<close>, \<open>unicode.IsDigit\<close>, \<open>strings.ToLower\<close> and \<open>sort.Slice\<close>
  (the slice it leaves, given the \<open>less\<close> function and the slice it was handed).
\<close>

record 'f golib =
  ParseFloat :: "string \<Rightarrow> 'f \<times> bool"
  floatLess :: "'f \<Rightarrow> 'f \<Rightarrow> bool"
  timeParse :: "string \<Rightarrow> string \<Rightarrow> bool"
  IsLetter :: "nat \<Rightarrow> bool"
  IsDigit :: "nat \<Rightarrow> bool"
  ToLower :: "string \<Rightarrow> string"
  SortSlice :: "(string \<Rightarrow> string \<Rightarrow> bool) \<Rightarrow> string list \<Rightarrow> string list"

text \<open>The character classes of Go's regular expressions: \<open>\w\<close>, \<open>\s\<close>, \<open>\d\<close> are ASCII.\<close>

definition reWord :: "char \<Rightarrow> bool" where
  "reWord c = ((48 \<le> byte c \<and> byte c \<le> 57) \<or> (65 \<le> byte c \<and> byte c \<le> 90)
               \<or> (97 \<le> byte c \<and> byte c \<le> 122) \<or> byte c = 95)"

definition reSpace :: "char \<Rightarrow> bool" where
  "reSpace c = (byte c \<in> {9, 10, 12, 13, 32})"

definition apostrophe :: char where
  "apostrophe = CHR 0x27"

text \<open>
  Each pattern of \<open>evaluateCondition\<close> is matched by a function that tries it at the
  start of a string and returns the submatches. In every pattern a repetition is
  followed by something its own class excludes (a word is followed by white space or
  an operator, white space by an operator, a quote or a letter, the quoted text by
  the quote), so the longest run is the only run that can lead to a match, which
  \<^const>\<open>takeWhile\<close> and \<^const>\<open>dropWhile\<close> take. \<open>FindStringSubmatch\<close> returns the
  match that starts leftmost: the pattern is tried at every position in turn.
\<close>

fun FindStringSubmatch :: "(string \<Rightarrow> 'a option) \<Rightarrow> string \<Rightarrow> 'a option" where
  "FindStringSubmatch matchAt [] = matchAt []"
| "FindStringSubmatch matchAt (c # cs) =
     (case matchAt (c # cs) of
        Some m \<Rightarrow> Some m
      | None \<Rightarrow> FindStringSubmatch matchAt cs)"

text \<open>\<open>'([^']*)'\<close> at the start of a string: the text between the quotes.\<close>

definition matchQuoted :: "string \<Rightarrow> string option" where
  "matchQuoted s =
     (case s of
        [] \<Rightarrow> None
      | q # r \<Rightarrow>
          if q \<noteq> apostrophe then None
          else (case dropWhile (\<lambda>c. c \<noteq> apostrophe) r of
                  [] \<Rightarrow> None
                | _ # _ \<Rightarrow> Some (takeWhile (\<lambda>c. c \<noteq> apostrophe) r)))"

text \<open>\<open>(\d+(?:\.\d+)?)\<close> at the start of a string.\<close>

definition matchNumber :: "string \<Rightarrow> string option" where
  "matchNumber s =
     (let ds = takeWhile isDigit s; r = dropWhile isDigit s in
      if ds = [] then None
      else (case r of
              [] \<Rightarrow> Some ds
            | d # r' \<Rightarrow>
                if d = CHR ''.'' \<and> takeWhile isDigit r' \<noteq> []
                then Some (ds @ [d] @ takeWhile isDigit r')
                else Some ds))"

text \<open>
  \<open>(\w+)\s*OP\s*ARG\<close> for the patterns with a symbolic operator, and
  \<open>(\w+)\s+OP\s+ARG\<close> for \<open>starts_with\<close>: the field name and the argument.
\<close>

definition matchInfix ::
  "string \<Rightarrow> (string \<Rightarrow> string option) \<Rightarrow> string \<Rightarrow> (string \<times> string) option" where
  "matchInfix opr arg s =
     (let w = takeWhile reWord s; r = dropWhile reSpace (dropWhile reWord s) in
      if w = [] \<or> \<not> HasPrefix r opr then None
      else (case arg (dropWhile reSpace (drop (length opr) r)) of
              None \<Rightarrow> None
            | Some a \<Rightarrow> Some (w, a)))"

definition matchKeyword ::
  "string \<Rightarrow> (string \<Rightarrow> string option) \<Rightarrow> string \<Rightarrow> (string \<times> string) option" where
  "matchKeyword opr arg s =
     (let w = takeWhile reWord s; r0 = dropWhile reWord s; r = dropWhile reSpace r0 in
      if w = [] \<or> takeWhile reSpace r0 = [] \<or> \<not> HasPrefix r opr then None
      else let r1 = drop (length opr) r in
        if takeWhile reSpace r1 = [] then None
        else (case arg (dropWhile reSpace r1) of
                None \<Rightarrow> None
              | Some a \<Rightarrow> Some (w, a)))"

text \<open>\<open>(\w+)\s+is_empty\<close> and \<open>(\w+)\s+is_not_empty\<close>: the field name.\<close>

definition matchSuffixOp :: "string \<Rightarrow> string \<Rightarrow> string option" where
  "matchSuffixOp opr s =
     (let w = takeWhile reWord s; r0 = dropWhile reWord s in
      if w = [] \<or> takeWhile reSpace r0 = [] \<or> \<not> HasPrefix (dropWhile reSpace r0) opr
      then None else Some w)"

definition matchEq :: "string \<Rightarrow> (string \<times> string) option" where
  "matchEq = matchInfix ''=='' matchQuoted"

definition matchNe :: "string \<Rightarrow> (string \<times> string) option" where
  "matchNe = matchInfix ''!='' matchQuoted"

definition matchGt :: "string \<Rightarrow> (string \<times> string) option" where
  "matchGt = matchInfix ''>'' matchNumber"

definition matchLt :: "string \<Rightarrow> (string \<times> string) option" where
  "matchLt = matchInfix ''<'' matchNumber"

definition matchStartsWith :: "string \<Rightarrow> (string \<times> string) option" where
  "matchStartsWith = matchKeyword ''starts_with'' matchQuoted"

definition matchIsEmpty :: "string \<Rightarrow> string option" where
  "matchIsEmpty = matchSuffixOp ''is_empty''"

definition matchIsNotEmpty :: "string \<Rightarrow> string option" where
  "matchIsNotEmpty = matchSuffixOp ''is_not_empty''"

text \<open>
  \<open>evaluateCondition\<close>: the \<open>if\<close> prefix and the surrounding white space are taken
  off, then the patterns are tried in the order of the source, and the first that
  matches decides. The errors of \<open>ParseFloat\<close> are dropped, as the source drops them.
\<close>

definition evaluateCondition :: "'f golib \<Rightarrow> string \<Rightarrow> (string \<rightharpoonup> string) \<Rightarrow> bool" where
  "evaluateCondition lib rule0 fieldMap =
     (let rule = TrimSpace (TrimPrefix rule0 ''if '') in
      case FindStringSubmatch matchEq rule of
        Some (fieldName, expectedValue) \<Rightarrow> lookupField fieldMap fieldName = expectedValue
      | None \<Rightarrow>
      (case FindStringSubmatch matchNe rule of
        Some (fieldName, expectedValue) \<Rightarrow> lookupField fieldMap fieldName \<noteq> expectedValue
      | None \<Rightarrow>
      (case FindStringSubmatch matchGt rule of
        Some (fieldName, num) \<Rightarrow>
          floatLess lib (fst (ParseFloat lib num))
            (fst (ParseFloat lib (lookupField fieldMap fieldName)))
      | None \<Rightarrow>
      (case FindStringSubmatch matchLt rule of
        Some (fieldName, num) \<Rightarrow>
          floatLess lib (fst (ParseFloat lib (lookupField fieldMap fieldName)))
            (fst (ParseFloat lib num))
      | None \<Rightarrow>
      (case FindStringSubmatch matchStartsWith rule of
        Some (fieldName, pre) \<Rightarrow> HasPrefix (lookupField fieldMap fieldName) pre
      | None \<Rightarrow>
      (case FindStringSubmatch matchIsEmpty rule of
        Some fieldName \<Rightarrow> lookupField fieldMap fieldName = []
      | None \<Rightarrow>
      (case FindStringSubmatch matchIsNotEmpty rule of
        Some fieldName \<Rightarrow> lookupField fieldMap fieldName \<noteq> []
      | None \<Rightarrow> False)))))))"

section \<open>Schema and grouped records\<close>

record FieldMapping =
  OldHeader :: string
  XMLTag :: string
  ParentTag :: string
  DataType :: string
  MaxLength :: int
  RequiredType :: string
  ConditionalRule :: string
  DefaultValue :: string
  Order :: int

record Schema =
  TemplateFile :: string
  FieldMappings :: "string \<rightharpoonup> FieldMapping"
  TransactionFields :: "string list"
  LineItemFields :: "string list"
  CashbookFields :: "string list"
  XMLRootElement :: string
  XMLTransactionElement :: string
  XMLLineItemElement :: string

definition GetFieldMapping :: "Schema \<Rightarrow> string \<Rightarrow> FieldMapping option" where
  "GetFieldMapping s oldHeader = FieldMappings s oldHeader"

record LineItem =
  LineItemID :: int
  Fields :: "string \<rightharpoonup> string"

record Transaction =
  TransactionID :: int
  GroupKey :: string
  LineItems :: "LineItem list"

section \<open>Validation engine\<close>

record ValidationError =
  Severity :: string
  Field :: string
  Value :: string
  Rule :: string
  Message :: string
  ErrTransactionID :: int
  ErrLineItemID :: int
  RowNumber :: int

record ValidationContext =
  CtxFieldName :: string
  CtxFieldMapping :: FieldMapping
  CtxTransaction :: Transaction
  CtxLineItem :: LineItem
  CtxAllFields :: "string \<rightharpoonup> string"

record ValidationOptions =
  StopOnFirstError :: bool
  TreatWarningsAsErrors :: bool
  SkipOptionalValidation :: bool
  CustomValidators :: "string \<rightharpoonup> (string \<Rightarrow> ValidationContext \<Rightarrow> string)"

record Validator =
  schema :: Schema
  options :: ValidationOptions

text \<open>The pieces of \<open>fmt.Sprintf\<close> the messages need: \<open>'%s'\<close> and \<open>%d\<close>.\<close>

definition quoted :: "string \<Rightarrow> string" where
  "quoted v = apostrophe # v @ [apostrophe]"

fun showNat :: "nat \<Rightarrow> string" where
  "showNat n =
     (if n < 10 then [char_of (48 + n)]
      else showNat (n div 10) @ [char_of (48 + n mod 10)])"

declare showNat.simps [simp del]

definition showInt :: "int \<Rightarrow> string" where
  "showInt i = (if i < 0 then CHR ''-'' # showNat (nat (- i)) else showNat (nat i))"

text \<open>\<open>strings.Index\<close> for a one-byte needle, and \<open>strings.Split\<close> on one.\<close>

definition Index :: "string \<Rightarrow> char \<Rightarrow> int" where
  "Index s c = (if c \<in> set s then int (length (takeWhile (\<lambda>x. x \<noteq> c) s)) else - 1)"

fun Split :: "string \<Rightarrow> char \<Rightarrow> string list" where
  "Split [] sep = [[]]"
| "Split (c # cs) sep =
     (if c = sep then [] # Split cs sep
      else (case Split cs sep of
              [] \<Rightarrow> [[c]]
            | p # ps \<Rightarrow> (c # p) # ps))"

definition extractParenthesesContent :: "string \<Rightarrow> string" where
  "extractParenthesesContent s =
     (let start = Index s (CHR ''(''); e = Index s (CHR '')'') in
      if start \<noteq> - 1 \<and> e \<noteq> - 1 \<and> e > start
      then take (nat (e - (start + 1))) (drop (nat (start + 1)) s)
      else [])"

definition validateNumeric :: "string \<Rightarrow> string" where
  "validateNumeric value0 =
     (let val = TrimSpace value0 in
      if val = [] then []
      else if ParseInt val = None then ''Value '' @ quoted val @ '' is not a valid integer''
      else [])"

definition validateDecimal :: "'f golib \<Rightarrow> string \<Rightarrow> string \<Rightarrow> string" where
  "validateDecimal lib value0 dataType =
     (let val = TrimSpace value0 in
      if val = [] then []
      else if \<not> snd (ParseFloat lib val) then
        ''Value '' @ quoted val @ '' is not a valid decimal number''
      else if CHR ''('' \<in> set dataType \<and> extractParenthesesContent dataType \<noteq> [] then
        (case Atoi (extractParenthesesContent dataType) of
           None \<Rightarrow> []
         | Some precision \<Rightarrow>
             if precision \<ge> 0 \<and> CHR ''.'' \<in> set val
                \<and> length (Split val (CHR ''.'')) = 2
                \<and> int (length (Split val (CHR ''.'') ! 1)) > precision
             then ''Value '' @ quoted val @ '' has more than '' @ showInt precision
                    @ '' decimal places''
             else [])
      else [])"

definition validateAlphanumeric :: "'f golib \<Rightarrow> string \<Rightarrow> string" where
  "validateAlphanumeric lib val =
     (if list_all (\<lambda>r. IsLetter lib r \<or> IsDigit lib r \<or> IsSpace r) (runes val) then []
      else ''Value '' @ quoted val @ '' contains non-alphanumeric characters'')"

definition validateAlpha :: "'f golib \<Rightarrow> string \<Rightarrow> string" where
  "validateAlpha lib val =
     (if list_all (\<lambda>r. IsLetter lib r \<or> IsSpace r) (runes val) then []
      else ''Value '' @ quoted val @ '' contains non-alphabetic characters'')"

definition dateFormats :: "string list" where
  "dateFormats = [''2006-01-02'', ''01/02/2006'', ''02/01/2006'', ''2006/01/02'',
                  ''Jan 2, 2006'', ''January 2, 2006'', ''20060102'']"

definition validateDate :: "'f golib \<Rightarrow> string \<Rightarrow> string \<Rightarrow> string" where
  "validateDate lib value0 dataType =
     (let val = TrimSpace value0; format = extractParenthesesContent dataType in
      if val = [] then []
      else if format = [] then
        (if list_ex (\<lambda>f. timeParse lib f val) dateFormats then []
         else ''Value '' @ quoted val @ '' is not a valid date'')
      else if \<not> timeParse lib format val then
        ''Value '' @ quoted val @ '' does not match date format '' @ quoted format
      else [])"

definition validateBoolean :: "'f golib \<Rightarrow> string \<Rightarrow> string" where
  "validateBoolean lib value0 =
     (let val = ToLower lib (TrimSpace value0) in
      if val \<in> set [''true'', ''false'', ''yes'', ''no'', ''1'', ''0'', ''y'', ''n'', ''t'', ''f'']
      then []
      else ''Value '' @ quoted val @ '' is not a valid boolean'')"

definition validateDataType :: "'f golib \<Rightarrow> string \<Rightarrow> string \<Rightarrow> string" where
  "validateDataType lib val dataType =
     (if dataType = ''string'' \<or> dataType = [] then []
      else if dataType = ''numeric'' then validateNumeric val
      else if HasPrefix dataType ''decimal'' then validateDecimal lib val dataType
      else if dataType = ''alphanumeric'' then validateAlphanumeric lib val
      else if dataType = ''alpha'' then validateAlpha lib val
      else if HasPrefix dataType ''date'' then validateDate lib val dataType
      else if dataType = ''boolean'' then validateBoolean lib val
      else [])"

text \<open>
  \<open>ValidateField\<close>: the findings for one value, in the order the source appends them.
  The two early returns are the first two branches.
\<close>

definition mkError ::
  "FieldMapping \<Rightarrow> string \<Rightarrow> string \<Rightarrow> string \<Rightarrow> Transaction \<Rightarrow> LineItem \<Rightarrow> ValidationError" where
  "mkError mapping val rule msg transaction lineItem =
     \<lparr>Severity = ''error'', Field = OldHeader mapping, Value = val, Rule = rule,
      Message = msg, ErrTransactionID = TransactionID transaction,
      ErrLineItemID = LineItemID lineItem, RowNumber = 0\<rparr>"

definition ValidateField ::
  "'f golib \<Rightarrow> string \<Rightarrow> FieldMapping \<Rightarrow> Transaction \<Rightarrow> LineItem \<Rightarrow> ValidationError list" where
  "ValidateField lib val mapping transaction lineItem =
     (if RequiredType mapping = ''required'' \<and> val = [] then
        [mkError mapping val ''required''
           (''Required field '' @ quoted (XMLTag mapping) @ '' is empty'') transaction lineItem]
      else if val = [] then []
      else
        (if RequiredType mapping = ''conditional'' \<and> ConditionalRule mapping \<noteq> []
            \<and> evaluateCondition lib (ConditionalRule mapping) (Fields lineItem) \<and> val = []
         then [mkError mapping val ''conditional_required''
                 (''Field '' @ quoted (XMLTag mapping) @ '' is required when: ''
                    @ ConditionalRule mapping) transaction lineItem]
         else [])
        @ (if MaxLength mapping > 0 \<and> int (length val) > MaxLength mapping
           then [mkError mapping val ''max_length''
                   (''Value exceeds maximum length of '' @ showInt (MaxLength mapping)
                      @ '' characters (actual: '' @ showInt (int (length val)) @ '')'')
                   transaction lineItem]
           else [])
        @ (if validateDataType lib val (DataType mapping) \<noteq> []
           then [mkError mapping val ''data_type''
                   (validateDataType lib val (DataType mapping)) transaction lineItem]
           else []))"

text \<open>
  \<open>ValidateLineItem\<close> ranges over the line item's \<open>Fields\<close> map. Go leaves the order
  of a map range open, so the order the loop takes is the argument \<open>visited\<close>: a
  list of the keys of the map, each once.
\<close>

definition customError ::
  "string \<Rightarrow> string \<Rightarrow> string \<Rightarrow> Transaction \<Rightarrow> LineItem \<Rightarrow> ValidationError" where
  "customError fieldName val errMsg transaction lineItem =
     \<lparr>Severity = ''error'', Field = fieldName, Value = val, Rule = ''custom'',
      Message = errMsg, ErrTransactionID = TransactionID transaction,
      ErrLineItemID = LineItemID lineItem, RowNumber = 0\<rparr>"

definition validateEntry ::
  "'f golib \<Rightarrow> Validator \<Rightarrow> Transaction \<Rightarrow> LineItem \<Rightarrow> string \<Rightarrow> ValidationError list" where
  "validateEntry lib v transaction lineItem fieldName =
     (let val = lookupField (Fields lineItem) fieldName in
      case GetFieldMapping (schema v) fieldName of
        None \<Rightarrow> []
      | Some mapping \<Rightarrow>
          if SkipOptionalValidation (options v) \<and> RequiredType mapping = ''optional'' then []
          else
            ValidateField lib val mapping transaction lineItem
            @ (case CustomValidators (options v) fieldName of
                 None \<Rightarrow> []
               | Some customValidator \<Rightarrow>
                   let errMsg = customValidator val
                         \<lparr>CtxFieldName = fieldName, CtxFieldMapping = mapping,
                          CtxTransaction = transaction, CtxLineItem = lineItem,
                          CtxAllFields = Fields lineItem\<rparr>
                   in if errMsg \<noteq> [] then
                        [customError fieldName val errMsg transaction lineItem]
                      else []))"

definition rangeOrder :: "(string \<rightharpoonup> string) \<Rightarrow> string list \<Rightarrow> bool" where
  "rangeOrder m visited = (distinct visited \<and> set visited = dom m)"

definition ValidateLineItem ::
  "'f golib \<Rightarrow> Validator \<Rightarrow> string list \<Rightarrow> Transaction \<Rightarrow> LineItem \<Rightarrow> ValidationError list" where
  "ValidateLineItem lib v visited transaction lineItem =
     concat (map (validateEntry lib v transaction lineItem) visited)"

section \<open>Transformation engine\<close>

record TransformationAction =
  ActionType :: string
  ActionValue :: string
  ActionFind :: string
  ActionCondition :: string
  ActionLookupTable :: "string \<rightharpoonup> string"

datatype error = TransformError string | IndexOutOfRange

text \<open>\<open>PadLeft\<close> and \<open>PadRight\<close>; the callers pass the one-byte runes \<open>'0'\<close> and \<open>' '\<close>.\<close>

definition PadLeft :: "string \<Rightarrow> int \<Rightarrow> char \<Rightarrow> string" where
  "PadLeft s len padChar =
     (if int (length s) \<ge> len then s
      else replicate (nat (len - int (length s))) padChar @ s)"

definition PadRight :: "string \<Rightarrow> int \<Rightarrow> char \<Rightarrow> string" where
  "PadRight s len padChar =
     (if int (length s) \<ge> len then s
      else s @ replicate (nat (len - int (length s))) padChar)"

text \<open>
  \<open>ApplyTransformation\<close> is one switch over the action type. The branches embedded
  here are the literal concatenations and the length actions; \<open>other\<close> stands for the
  remaining branches of the switch (case folding, replacement, dates, lookups and the
  unknown-type error), which the case labels keep disjoint from these.
\<close>

definition ApplyTransformation ::
  "(string \<Rightarrow> TransformationAction \<Rightarrow> (string \<rightharpoonup> string) \<Rightarrow> error + string) \<Rightarrow>
   string \<Rightarrow> TransformationAction \<Rightarrow> (string \<rightharpoonup> string) \<Rightarrow> error + string" where
  "ApplyTransformation other val action allFields =
     (if ActionType action = ''prepend_string'' then Inr (ActionValue action @ val)
      else if ActionType action = ''append_string'' then Inr (val @ ActionValue action)
      else if ActionType action = ''pad_zeros_to_length'' then
        (case Atoi (ActionValue action) of
           None \<Rightarrow> Inr val
         | Some targetLength \<Rightarrow>
             if targetLength \<le> 0 then Inr val
             else Inr (PadLeft val targetLength (CHR ''0'')))
      else if ActionType action = ''pad_spaces_to_length'' then
        (case Atoi (ActionValue action) of
           None \<Rightarrow> Inr val
         | Some targetLength \<Rightarrow>
             if targetLength \<le> 0 then Inr val
             else Inr (PadRight val targetLength (CHR '' '')))
      else if ActionType action = ''ensure_length'' then
        (case Atoi (ActionValue action) of
           None \<Rightarrow> Inr val
         | Some targetLength \<Rightarrow>
             if targetLength \<le> 0 then Inr val
             else if int (length val) > targetLength then Inr (take (nat targetLength) val)
             else Inr (PadLeft val targetLength (CHR ''0'')))
      else other val action allFields)"

section \<open>Configuration\<close>

record CSVSettings =
  Delimiter :: string
  HeaderRows :: int
  DataStartRow :: int
  Encoding :: string
  QuoteChar :: string
  EscapeChar :: string

record TransformationRule =
  RuleField :: string
  Actions :: "TransformationAction list"

record TransactionGrouping =
  GroupByField :: string
  SortByField :: string
  SortOrder :: string

record StaticField =
  StaticXMLTag :: string
  StaticValue :: string
  StaticParentTag :: string

record DepartmentConfig =
  DepartmentName :: string
  DepartmentCode :: string
  FileMatchingPatterns :: "string list"
  CsvSettings :: CSVSettings
  TransformationRules :: "TransformationRule list"
  Grouping :: TransactionGrouping
  StaticFields :: "StaticField list"

section \<open>CSV rows\<close>

record CSVData =
  Headers :: "string list"
  Rows :: "(string \<rightharpoonup> string) list"
  RawRows :: "string list list"
  SourceFile :: string
  RowCount :: int
  ColumnCount :: int

definition isRowEmpty :: "string list \<Rightarrow> bool" where
  "isRowEmpty row = list_all (\<lambda>cell. TrimSpace cell = []) row"

text \<open>
  The inner loop of \<open>extractDataRows\<close>: the map of one row, filled header by
  header, with the column index running along.
\<close>

fun fillRowMap ::
  "string list \<Rightarrow> nat \<Rightarrow> string list \<Rightarrow> (string \<rightharpoonup> string) \<Rightarrow> (string \<rightharpoonup> string)" where
  "fillRowMap row colIndex [] rowMap = rowMap"
| "fillRowMap row colIndex (header # headers) rowMap =
     fillRowMap row (colIndex + 1) headers
       (if colIndex < length row then rowMap(header \<mapsto> TrimSpace (row ! colIndex))
        else rowMap(header \<mapsto> []))"

fun collectDataRows :: "string list \<Rightarrow> string list list \<Rightarrow> (string \<rightharpoonup> string) list" where
  "collectDataRows headers [] = []"
| "collectDataRows headers (row # rows) =
     (if isRowEmpty row then collectDataRows headers rows
      else fillRowMap row 0 headers Map.empty # collectDataRows headers rows)"

definition dataStartIndex :: "CSVSettings \<Rightarrow> int" where
  "dataStartIndex settings =
     (if DataStartRow settings - 1 < 0 then HeaderRows settings
      else DataStartRow settings - 1)"

text \<open>
  \<open>extractDataRows\<close>. A negative start index (no data start row and a negative
  header count) passes the length test and then indexes the rows out of range,
  which panics.
\<close>

definition extractDataRows ::
  "string list list \<Rightarrow> string list \<Rightarrow> CSVSettings \<Rightarrow> error + (string \<rightharpoonup> string) list" where
  "extractDataRows allRows headers settings =
     (let startIndex = dataStartIndex settings in
      if startIndex \<ge> int (length allRows) then Inr []
      else if startIndex < 0 then Inl IndexOutOfRange
      else Inr (collectDataRows headers (drop (nat startIndex) allRows)))"

section \<open>Record grouper\<close>

text \<open>The first loop of \<open>groupTransactions\<close>: one row into \<open>groups\<close> and \<open>groupOrder\<close>.\<close>

definition addRow ::
  "string \<Rightarrow> (string \<rightharpoonup> (string \<rightharpoonup> string) list) \<times> string list \<Rightarrow> (string \<rightharpoonup> string) \<Rightarrow>
   (string \<rightharpoonup> (string \<rightharpoonup> string) list) \<times> string list" where
  "addRow groupByField st row =
     (let groups = fst st; groupOrder = snd st; key = lookupField row groupByField in
      (groups(key \<mapsto> (case groups key of None \<Rightarrow> [] | Some rs \<Rightarrow> rs) @ [row]),
       if groups key = None then groupOrder @ [key] else groupOrder))"

text \<open>The second loop, with the line item counter that runs across the groups.\<close>

fun numberLineItems :: "int \<Rightarrow> (string \<rightharpoonup> string) list \<Rightarrow> LineItem list" where
  "numberLineItems lineItemCounter [] = []"
| "numberLineItems lineItemCounter (row # rows) =
     \<lparr>LineItemID = lineItemCounter, Fields = row\<rparr> # numberLineItems (lineItemCounter + 1) rows"

fun groupsToTransactions ::
  "(string \<rightharpoonup> (string \<rightharpoonup> string) list) \<Rightarrow> string list \<Rightarrow> int \<Rightarrow> int \<Rightarrow> Transaction list" where
  "groupsToTransactions groups [] i lineItemCounter = []"
| "groupsToTransactions groups (key # keys) i lineItemCounter =
     (let rows = (case groups key of None \<Rightarrow> [] | Some rs \<Rightarrow> rs) in
      \<lparr>TransactionID = i + 1, GroupKey = key,
       LineItems = numberLineItems lineItemCounter rows\<rparr>
      # groupsToTransactions groups keys (i + 1) (lineItemCounter + int (length rows)))"

text \<open>Without a grouping field every row is a transaction of its own.\<close>

fun ungrouped :: "int \<Rightarrow> (string \<rightharpoonup> string) list \<Rightarrow> Transaction list" where
  "ungrouped i [] = []"
| "ungrouped i (row # rows) =
     \<lparr>TransactionID = i + 1, GroupKey = [],
      LineItems = [\<lparr>LineItemID = i + 1, Fields = row\<rparr>]\<rparr> # ungrouped (i + 1) rows"

definition groupTransactions :: "DepartmentConfig \<Rightarrow> CSVData \<Rightarrow> Transaction list" where
  "groupTransactions deptConfig csvData =
     (let groupByField = GroupByField (Grouping deptConfig) in
      if groupByField = [] then ungrouped 0 (Rows csvData)
      else
        let st = foldl (addRow groupByField) (Map.empty, []) (Rows csvData)
        in groupsToTransactions (fst st) (snd st) 0 1)"

section \<open>Document assembler\<close>

record GenerateOptions =
  Indent :: string
  IncludeXMLDeclaration :: bool
  XMLVersion :: string
  XMLEncoding :: string
  RootAttributes :: "string \<rightharpoonup> string"
  LineItemNumberingGlobal :: bool
  TransactionIndexAttribute :: string
  LineItemIndexAttribute :: string

definition DefaultGenerateOptions :: GenerateOptions where
  "DefaultGenerateOptions =
     \<lparr>Indent = ''  '', IncludeXMLDeclaration = True, XMLVersion = ''1.0'',
      XMLEncoding = ''UTF-8'', RootAttributes = Map.empty, LineItemNumberingGlobal = True,
      TransactionIndexAttribute = ''n'', LineItemIndexAttribute = ''n''\<rparr>"

datatype XMLElement =
  XMLElement (XMLName: string) (Attributes: "(string \<times> string) list") (ElemValue: string)
    (Children: "XMLElement list")

record XMLDocument =
  DocName :: string
  DocAttributes :: "(string \<times> string) list"
  DocChildren :: "XMLElement list"

definition createSimpleElement :: "string \<Rightarrow> string \<Rightarrow> XMLElement" where
  "createSimpleElement name val = XMLElement name [] val []"

definition lessByOrder :: "Schema \<Rightarrow> string \<Rightarrow> string \<Rightarrow> bool" where
  "lessByOrder sch a b =
     (case GetFieldMapping sch a of
        None \<Rightarrow> False
      | Some mappingI \<Rightarrow>
          (case GetFieldMapping sch b of
             None \<Rightarrow> False
           | Some mappingJ \<Rightarrow> Order mappingI < Order mappingJ))"

definition getOrderedFields :: "'f golib \<Rightarrow> string list \<Rightarrow> Schema \<Rightarrow> string list" where
  "getOrderedFields lib fieldNames sch = SortSlice lib (lessByOrder sch) fieldNames"

text \<open>The static fields configured for one parent tag.\<close>

definition staticElements :: "'f golib \<Rightarrow> DepartmentConfig \<Rightarrow> string \<Rightarrow> XMLElement list" where
  "staticElements lib deptConfig parent =
     map (\<lambda>staticField. createSimpleElement (StaticXMLTag staticField) (StaticValue staticField))
       (filter (\<lambda>staticField. ToLower lib (StaticParentTag staticField) = parent)
          (StaticFields deptConfig))"

text \<open>
  The loop over the schema fields of one level, which \<open>buildTransactionElement\<close>
  and \<open>buildLineItemElement\<close> both have: each header with the element appended for
  it, so that the header an element stands for stays known.
\<close>

definition fieldEntry :: "Schema \<Rightarrow> (string \<rightharpoonup> string) \<Rightarrow> string \<Rightarrow> (string \<times> XMLElement) list" where
  "fieldEntry sch fieldMap oldHeader =
     (case GetFieldMapping sch oldHeader of
        None \<Rightarrow> []
      | Some mapping \<Rightarrow>
          let val = lookupField fieldMap oldHeader in
          if val \<noteq> [] \<or> RequiredType mapping = ''required''
          then [(oldHeader, createSimpleElement (XMLTag mapping) val)]
          else [])"

definition fieldEntries ::
  "'f golib \<Rightarrow> Schema \<Rightarrow> string list \<Rightarrow> (string \<rightharpoonup> string) \<Rightarrow> (string \<times> XMLElement) list" where
  "fieldEntries lib sch fieldNames fieldMap =
     concat (map (fieldEntry sch fieldMap) (getOrderedFields lib fieldNames sch))"

definition buildLineItemElement ::
  "'f golib \<Rightarrow> LineItem \<Rightarrow> Schema \<Rightarrow> DepartmentConfig \<Rightarrow> GenerateOptions \<Rightarrow> int \<Rightarrow> XMLElement" where
  "buildLineItemElement lib lineItem sch deptConfig opts globalLineItemIndex =
     (let index = (if LineItemNumberingGlobal opts then globalLineItemIndex
                   else LineItemID lineItem)
      in XMLElement (XMLLineItemElement sch)
           [(LineItemIndexAttribute opts, showInt index)] []
           (staticElements lib deptConfig ''lineitem''
            @ map snd (fieldEntries lib sch (LineItemFields sch) (Fields lineItem))))"

text \<open>
  The counter \<open>globalLineItemIndex\<close> is a pointer in the source; here each loop
  takes it and returns it with the elements built.
\<close>

fun buildLineItemElements ::
  "'f golib \<Rightarrow> Schema \<Rightarrow> DepartmentConfig \<Rightarrow> GenerateOptions \<Rightarrow> LineItem list \<Rightarrow> int \<Rightarrow>
   XMLElement list \<times> int" where
  "buildLineItemElements lib sch deptConfig opts [] g = ([], g)"
| "buildLineItemElements lib sch deptConfig opts (lineItem # lineItems) g =
     (let e = buildLineItemElement lib lineItem sch deptConfig opts g;
          rest = buildLineItemElements lib sch deptConfig opts lineItems
                   (if LineItemNumberingGlobal opts then g + 1 else g)
      in (e # fst rest, snd rest))"

definition buildTransactionElement ::
  "'f golib \<Rightarrow> Transaction \<Rightarrow> Schema \<Rightarrow> DepartmentConfig \<Rightarrow> GenerateOptions \<Rightarrow> int \<Rightarrow>
   XMLElement \<times> int" where
  "buildTransactionElement lib transaction sch deptConfig opts g =
     (let built = buildLineItemElements lib sch deptConfig opts (LineItems transaction) g in
      (XMLElement (XMLTransactionElement sch)
         [(TransactionIndexAttribute opts, showInt (TransactionID transaction))] []
         (staticElements lib deptConfig ''transaction''
          @ (case LineItems transaction of
               [] \<Rightarrow> []
             | firstLineItem # _ \<Rightarrow>
                 map snd (fieldEntries lib sch (TransactionFields sch) (Fields firstLineItem)))
          @ fst built),
       snd built))"

fun buildTransactionElements ::
  "'f golib \<Rightarrow> Schema \<Rightarrow> DepartmentConfig \<Rightarrow> GenerateOptions \<Rightarrow> Transaction list \<Rightarrow> int \<Rightarrow>
   XMLElement list" where
  "buildTransactionElements lib sch deptConfig opts [] g = []"
| "buildTransactionElements lib sch deptConfig opts (transaction # transactions) g =
     (let built = buildTransactionElement lib transaction sch deptConfig opts g in
      fst built # buildTransactionElements lib sch deptConfig opts transactions (snd built))"

text \<open>
  \<open>buildDocument\<close>. The root attributes come from a map range, whose order is the
  argument \<open>visited\<close>.
\<close>

definition buildDocument ::
  "'f golib \<Rightarrow> string list \<Rightarrow> Transaction list \<Rightarrow> Schema \<Rightarrow> DepartmentConfig \<Rightarrow>
   GenerateOptions \<Rightarrow> XMLDocument" where
  "buildDocument lib visited transactions sch deptConfig opts =
     \<lparr>DocName = XMLRootElement sch,
      DocAttributes = map (\<lambda>key. (key, lookupField (RootAttributes opts) key)) visited,
      DocChildren = staticElements lib deptConfig ''cashbook''
                    @ buildTransactionElements lib sch deptConfig opts transactions 1\<rparr>"

subsection \<open>Serialisation\<close>

definition escapeRune :: "nat \<Rightarrow> string" where
  "escapeRune r =
     (if r = 38 then ''&amp;''
      else if r = 60 then ''&lt;''
      else if r = 62 then ''&gt;''
      else if r = 34 then ''&quot;''
      else if r = 39 then ''&apos;''
      else EncodeRune r)"

text \<open>\<open>escapeXML\<close> ranges over the runes of the string and writes each one out.\<close>

definition escapeXML :: "string \<Rightarrow> string" where
  "escapeXML s = concat (map escapeRune (runes s))"

definition dquote :: char where
  "dquote = CHR 0x22"

definition newline :: char where
  "newline = CHR 0x0A"

definition writeAttr :: "string \<times> string \<Rightarrow> string" where
  "writeAttr attr = '' '' @ fst attr @ ''='' @ [dquote] @ escapeXML (snd attr) @ [dquote]"

fun writeElement :: "XMLElement \<Rightarrow> string \<Rightarrow> nat \<Rightarrow> string" where
  "writeElement (XMLElement name attrs val children) indent level =
     concat (replicate level indent) @ ''<'' @ name @ concat (map writeAttr attrs)
     @ (if children = [] \<and> val = [] then ''/>'' @ [newline]
        else ''>''
          @ (if val \<noteq> [] then escapeXML val
             else [newline]
               @ concat (map (\<lambda>child. writeElement child indent (level + 1)) children)
               @ concat (replicate level indent))
          @ ''</'' @ name @ ''>'' @ [newline])"

definition marshalWithIndent :: "XMLDocument \<Rightarrow> string \<Rightarrow> string" where
  "marshalWithIndent doc indent =
     ''<'' @ DocName doc @ concat (map writeAttr (DocAttributes doc)) @ ''>'' @ [newline]
     @ concat (map (\<lambda>child. writeElement child indent 1) (DocChildren doc))
     @ ''</'' @ DocName doc @ ''>'' @ [newline]"

definition GenerateWithOptions ::
  "'f golib \<Rightarrow> string list \<Rightarrow> Transaction list \<Rightarrow> Schema \<Rightarrow> DepartmentConfig \<Rightarrow>
   GenerateOptions \<Rightarrow> string" where
  "GenerateWithOptions lib visited transactions sch deptConfig opts =
     (if IncludeXMLDeclaration opts
      then ''<?xml version='' @ [dquote] @ XMLVersion opts @ [dquote] @ '' encoding=''
             @ [dquote] @ XMLEncoding opts @ [dquote] @ ''?>'' @ [newline]
      else [])
     @ marshalWithIndent (buildDocument lib visited transactions sch deptConfig opts)
         (Indent opts)"

section \<open>Notions the properties are stated with\<close>

text \<open>
  A string is valid UTF-8 when no step of the decoder reports an invalid encoding
  (\<open>utf8.ValidString\<close>).
\<close>

function ValidString :: "string \<Rightarrow> bool" where
  "ValidString s =
     (if s = [] then True
      else DecodeRuneInString s \<noteq> (RuneError, 1)
           \<and> ValidString (drop (snd (DecodeRuneInString s)) s))"
  by pat_completeness auto
termination
proof (relation "measure length")
  show "wf (measure length)" by simp
next
  fix s :: string
  assume "s \<noteq> []"
  then show "(drop (snd (DecodeRuneInString s)) s, s) \<in> measure length"
    using DecodeRuneInString_width [of s] by (cases s) auto
qed

declare ValidString.simps [simp del]

text \<open>
  Reading escaped text back: the five predefined entity references stand for their
  characters, everything else for itself.
\<close>

fun unescapeXML :: "string \<Rightarrow> string" where
  "unescapeXML [] = []"
| "unescapeXML (c # cs) =
     (if c = CHR ''&'' \<and> HasPrefix cs ''amp;'' then CHR ''&'' # unescapeXML (drop 4 cs)
      else if c = CHR ''&'' \<and> HasPrefix cs ''lt;'' then CHR ''<'' # unescapeXML (drop 3 cs)
      else if c = CHR ''&'' \<and> HasPrefix cs ''gt;'' then CHR ''>'' # unescapeXML (drop 3 cs)
      else if c = CHR ''&'' \<and> HasPrefix cs ''quot;'' then dquote # unescapeXML (drop 5 cs)
      else if c = CHR ''&'' \<and> HasPrefix cs ''apos;'' then apostrophe # unescapeXML (drop 5 cs)
      else c # unescapeXML cs)"

text \<open>The escape of one byte, as the claim describes it.\<close>

definition escapeByte :: "char \<Rightarrow> string" where
  "escapeByte c =
     (if c = CHR ''&'' then ''&amp;''
      else if c = CHR ''<'' then ''&lt;''
      else if c = CHR ''>'' then ''&gt;''
      else if c = dquote then ''&quot;''
      else if c = apostrophe then ''&apos;''
      else [c])"

text \<open>
  The elements of a document that carry an index attribute are the transaction
  elements, and inside them the line item elements; the field elements have no
  attribute. The line item indices of a document, in document order:
\<close>

definition indexed :: "XMLElement list \<Rightarrow> XMLElement list" where
  "indexed es = filter (\<lambda>e. Attributes e \<noteq> []) es"

definition lineItemIndices :: "XMLDocument \<Rightarrow> string list list" where
  "lineItemIndices doc =
     map (\<lambda>t. map (\<lambda>e. snd (hd (Attributes e))) (indexed (Children t)))
       (indexed (DocChildren doc))"

text \<open>The distinct values of a list, in the order in which each appears first.\<close>

fun firstAppearances :: "'a list \<Rightarrow> 'a list" where
  "firstAppearances [] = []"
| "firstAppearances (k # ks) = k # filter (\<lambda>x. x \<noteq> k) (firstAppearances ks)"

text \<open>The rows of each group key, as the first loop of \<open>groupTransactions\<close> leaves them.\<close>

definition groupsOf ::
  "string \<Rightarrow> (string \<rightharpoonup> string) list \<Rightarrow> (string \<rightharpoonup> (string \<rightharpoonup> string) list)" where
  "groupsOf gb rows k =
     (if k \<in> (\<lambda>r. lookupField r gb) ` set rows
      then Some (filter (\<lambda>r. lookupField r gb = k) rows) else None)"

text \<open>A stand-in for the library parameters, to run the model on sample inputs.\<close>

fun insertBy :: "('a \<Rightarrow> 'a \<Rightarrow> bool) \<Rightarrow> 'a \<Rightarrow> 'a list \<Rightarrow> 'a list" where
  "insertBy lt x [] = [x]"
| "insertBy lt x (y # ys) = (if lt x y then x # y # ys else y # insertBy lt x ys)"

definition sampleLib :: "int golib" where
  "sampleLib =
     \<lparr>ParseFloat = (\<lambda>s. case Atoi s of None \<Rightarrow> (0, False) | Some v \<Rightarrow> (v, True)),
      floatLess = (\<lambda>a b. a < b),
      timeParse = (\<lambda>layout v. False),
      IsLetter = (\<lambda>r. (65 \<le> r \<and> r \<le> 90) \<or> (97 \<le> r \<and> r \<le> 122)),
      IsDigit = (\<lambda>r. 48 \<le> r \<and> r \<le> 57),
      ToLower = map (\<lambda>c. if 65 \<le> byte c \<and> byte c \<le> 90 then char_of (byte c + 32) else c),
      SortSlice = (\<lambda>lt xs. foldr (insertBy lt) xs [])\<rparr>"

text \<open>Sample data: a schema of three fields, a configuration and three rows.\<close>

definition sampleRequired :: FieldMapping where
  "sampleRequired =
     \<lparr>OldHeader = ''Policy'', XMLTag = ''PolicyNumber'', ParentTag = ''lineItem'',
      DataType = ''numeric'', MaxLength = 10, RequiredType = ''required'',
      ConditionalRule = [], DefaultValue = [], Order = 2\<rparr>"

definition sampleConditional :: FieldMapping where
  "sampleConditional =
     \<lparr>OldHeader = ''Memo'', XMLTag = ''Memo'', ParentTag = ''lineItem'',
      DataType = ''string'', MaxLength = 2, RequiredType = ''conditional'',
      ConditionalRule = ''if Check is_not_empty'', DefaultValue = [], Order = 3\<rparr>"

definition sampleCheck :: FieldMapping where
  "sampleCheck =
     \<lparr>OldHeader = ''Check'', XMLTag = ''CheckNumber'', ParentTag = ''transaction'',
      DataType = ''numeric'', MaxLength = 0, RequiredType = ''optional'',
      ConditionalRule = [], DefaultValue = [], Order = 1\<rparr>"

definition sampleSchema :: Schema where
  "sampleSchema =
     \<lparr>TemplateFile = ''template.xlsx'',
      FieldMappings = [''Check'' \<mapsto> sampleCheck, ''Policy'' \<mapsto> sampleRequired,
                       ''Memo'' \<mapsto> sampleConditional],
      TransactionFields = [''Check''], LineItemFields = [''Memo'', ''Policy''],
      CashbookFields = [], XMLRootElement = ''cashbook'',
      XMLTransactionElement = ''transaction'', XMLLineItemElement = ''lineItem''\<rparr>"

definition sampleSettings :: CSVSettings where
  "sampleSettings =
     \<lparr>Delimiter = '','', HeaderRows = 1, DataStartRow = 2, Encoding = ''UTF-8'',
      QuoteChar = [], EscapeChar = []\<rparr>"

definition sampleConfig :: "string \<Rightarrow> DepartmentConfig" where
  "sampleConfig groupByField =
     \<lparr>DepartmentName = ''Claims'', DepartmentCode = ''CLM'', FileMatchingPatterns = [],
      CsvSettings = sampleSettings, TransformationRules = [],
      Grouping = \<lparr>GroupByField = groupByField, SortByField = [], SortOrder = []\<rparr>,
      StaticFields = [\<lparr>StaticXMLTag = ''Source'', StaticValue = ''legacy'',
                       StaticParentTag = ''transaction''\<rparr>]\<rparr>"

definition sampleRows :: "(string \<rightharpoonup> string) list" where
  "sampleRows = [[''Check'' \<mapsto> ''100'', ''Policy'' \<mapsto> ''7''],
                 [''Check'' \<mapsto> ''200'', ''Memo'' \<mapsto> ''abc''],
                 [''Check'' \<mapsto> ''100'']]"

definition sampleCSV :: CSVData where
  "sampleCSV =
     \<lparr>Headers = [''Check'', ''Policy'', ''Memo''], Rows = sampleRows, RawRows = [],
      SourceFile = ''claims.csv'', RowCount = 3, ColumnCount = 3\<rparr>"


section \<open>Properties of the transformation engine\<close>

lemma Atoi_10: "Atoi ''10'' = Some 10"
  by (simp add: Atoi_def isDigit_def decimalVal_def digitVal_def byte_def)

text \<open>
  C6. For every value \<open>v\<close> and every target length \<open>n > 0\<close> (the action's parameter
  parses to \<open>n\<close>), \<open>ensure_length\<close> returns the first \<open>n\<close> bytes of \<open>v\<close> when \<open>v\<close> is
  longer than \<open>n\<close>, and otherwise \<open>v\<close> with zeros put in front up to length \<open>n\<close>.
  Lengths are Go's \<open>len\<close>, that is, bytes.
\<close>

theorem ensure_length_truncates_or_pads:
  assumes "ActionType action = ''ensure_length''"
    and "Atoi (ActionValue action) = Some n"
    and "0 < n"
  shows "ApplyTransformation other v action allFields =
           Inr (if int (length v) > n then take (nat n) v
                else replicate (nat n - length v) (CHR ''0'') @ v)"
  using assms by (auto simp: ApplyTransformation_def PadLeft_def nat_diff_distrib')

theorem ensure_length_examples:
  "ApplyTransformation (\<lambda>v a f. Inl (TransformError [])) ''12345678901234''
     \<lparr>ActionType = ''ensure_length'', ActionValue = ''10'', ActionFind = [],
      ActionCondition = [], ActionLookupTable = Map.empty\<rparr> Map.empty = Inr ''1234567890''
   \<and> ApplyTransformation (\<lambda>v a f. Inl (TransformError [])) ''123''
     \<lparr>ActionType = ''ensure_length'', ActionValue = ''10'', ActionFind = [],
      ActionCondition = [], ActionLookupTable = Map.empty\<rparr> Map.empty = Inr ''0000000123''"
proof -
  let ?a = "\<lparr>ActionType = ''ensure_length'', ActionValue = ''10'', ActionFind = [],
      ActionCondition = [], ActionLookupTable = Map.empty\<rparr>"
  let ?other = "\<lambda>v a f. Inl (TransformError []) :: error + string"
  have t: "ActionType ?a = ''ensure_length''" by simp
  have p: "Atoi (ActionValue ?a) = Some 10" by (simp add: Atoi_10)
  have n: "(0::int) < 10" by simp
  have a: "ApplyTransformation ?other ''12345678901234'' ?a Map.empty = Inr ''1234567890''"
    using ensure_length_truncates_or_pads [OF t p n, of ?other "''12345678901234''" Map.empty]
    by (simp add: numeral_eq_Suc)
  have b: "ApplyTransformation ?other ''123'' ?a Map.empty = Inr ''0000000123''"
    using ensure_length_truncates_or_pads [OF t p n, of ?other "''123''" Map.empty]
    by (simp add: numeral_eq_Suc)
  show ?thesis using a b by simp
qed

section \<open>Properties of the validation engine\<close>

text \<open>
  C3. A required field with an empty value gives exactly one finding: rule
  \<open>required\<close>, severity \<open>error\<close>; so no \<open>data_type\<close>, \<open>max_length\<close> or
  \<open>conditional_required\<close> finding comes out of that call.
\<close>

theorem required_empty_single_finding:
  assumes "RequiredType mapping = ''required''"
  shows "\<exists>e. ValidateField lib [] mapping transaction lineItem = [e]
           \<and> Rule e = ''required'' \<and> Severity e = ''error''
           \<and> Field e = OldHeader mapping
           \<and> Rule e \<notin> {''data_type'', ''max_length'', ''conditional_required''}"
  using assms by (simp add: ValidateField_def mkError_def)

text \<open>
  C4. \<open>ValidateField\<close> never emits a finding with rule \<open>conditional_required\<close>:
  the branch that would emit it needs an empty value, and an empty value has returned
  before.
\<close>

theorem conditional_required_never_emitted:
  "\<forall>e \<in> set (ValidateField lib val mapping transaction lineItem).
     Rule e \<noteq> ''conditional_required''"
  by (auto simp: ValidateField_def mkError_def split: if_splits)

text \<open>
  C5. An expression that none of the seven patterns matches (after the \<open>if\<close> prefix
  and the surrounding white space are taken off) evaluates to false. The evaluator
  has no failing path: its result is a \<^typ>\<open>bool\<close> for every expression and every
  field map.
\<close>

theorem no_match_evaluates_false:
  assumes "rule = TrimSpace (TrimPrefix rule0 ''if '')"
    and "FindStringSubmatch matchEq rule = None"
    and "FindStringSubmatch matchNe rule = None"
    and "FindStringSubmatch matchGt rule = None"
    and "FindStringSubmatch matchLt rule = None"
    and "FindStringSubmatch matchStartsWith rule = None"
    and "FindStringSubmatch matchIsEmpty rule = None"
    and "FindStringSubmatch matchIsNotEmpty rule = None"
  shows "evaluateCondition lib rule0 fieldMap = False"
  using assms by (simp add: evaluateCondition_def)

lemma validateEntry_Field:
  assumes "\<forall>h m. FieldMappings (schema v) h = Some m \<longrightarrow> OldHeader m = h"
    and "e \<in> set (validateEntry lib v transaction lineItem fieldName)"
  shows "Field e = fieldName"
  using assms
  by (auto simp: validateEntry_def GetFieldMapping_def ValidateField_def mkError_def
      customError_def Let_def split: option.splits if_splits)

text \<open>
  C9. Line item validation visits the keys present in the \<open>Fields\<close> map only. With
  a schema whose mappings are stored under their own \<open>OldHeader\<close> (as the template
  parser stores them), a key that is absent from the map gets no finding at all, so a
  required field that is missing from the record gets no \<open>required\<close> finding.
\<close>

theorem absent_key_not_validated:
  assumes "rangeOrder (Fields lineItem) visited"
    and "\<forall>h m. FieldMappings (schema v) h = Some m \<longrightarrow> OldHeader m = h"
    and "Fields lineItem k = None"
  shows "\<forall>e \<in> set (ValidateLineItem lib v visited transaction lineItem). Field e \<noteq> k"
proof
  fix e assume "e \<in> set (ValidateLineItem lib v visited transaction lineItem)"
  then obtain fieldName where f: "fieldName \<in> set visited"
    and e: "e \<in> set (validateEntry lib v transaction lineItem fieldName)"
    by (auto simp: ValidateLineItem_def)
  have "Field e = fieldName" using validateEntry_Field [OF assms(2) e] .
  moreover have "fieldName \<in> dom (Fields lineItem)" using f assms(1) by (simp add: rangeOrder_def)
  ultimately show "Field e \<noteq> k" using assms(3) by auto
qed
section \<open>Properties of the CSV row extraction\<close>

lemma isRowEmpty_iff: "isRowEmpty row \<longleftrightarrow> (\<forall>cell \<in> set row. TrimSpace cell = [])"
  by (simp add: isRowEmpty_def list_all_iff)

lemma fillRowMap_dom: "dom (fillRowMap row c hs m) = dom m \<union> set hs"
  by (induction hs arbitrary: c m) auto

lemma fillRowMap_other: "h \<notin> set hs \<Longrightarrow> fillRowMap row c hs m h = m h"
  by (induction hs arbitrary: c m) auto

lemma fillRowMap_lookup:
  assumes "j < length hs"
    and "\<forall>j'. j < j' \<and> j' < length hs \<longrightarrow> hs ! j' \<noteq> hs ! j"
  shows "fillRowMap row c hs m (hs ! j) =
           Some (if c + j < length row then TrimSpace (row ! (c + j)) else [])"
  using assms
proof (induction hs arbitrary: c m j)
  case Nil
  then show ?case by simp
next
  case (Cons h hs)
  show ?case
  proof (cases j)
    case 0
    have "h \<notin> set hs"
    proof
      assume "h \<in> set hs"
      then obtain i where "i < length hs" "hs ! i = h" by (auto simp: in_set_conv_nth)
      then show False using Cons.prems(2) 0 by (auto dest: spec [of _ "Suc i"])
    qed
    then show ?thesis using 0 by (simp add: fillRowMap_other)
  next
    case (Suc j0)
    have a: "j0 < length hs" using Cons.prems(1) Suc by simp
    have b: "\<forall>j'. j0 < j' \<and> j' < length hs \<longrightarrow> hs ! j' \<noteq> hs ! j0"
    proof (intro allI impI)
      fix j' assume "j0 < j' \<and> j' < length hs"
      then show "hs ! j' \<noteq> hs ! j0"
        using Cons.prems(2) Suc by (auto dest: spec [of _ "Suc j'"])
    qed
    show ?thesis using Cons.IH [OF a b, of "c + 1"] Suc by simp
  qed
qed

lemma collectDataRows_eq:
  "collectDataRows hs rows =
     map (\<lambda>r. fillRowMap r 0 hs Map.empty) (filter (\<lambda>r. \<not> isRowEmpty r) rows)"
  by (induction rows) auto

text \<open>
  C10. With a start index inside the file, \<open>extractDataRows\<close> returns one map for
  each row from the start index on that has a cell with something other than white
  space in it, in order, and none for the other rows. The map of a row has exactly
  the headers as keys; the value under a header is the trimmed cell of its column, or
  the empty string when the row is too short. (When a header occurs twice, its last
  column is the one that stays.)
\<close>

theorem extractDataRows_rows:
  assumes "0 \<le> dataStartIndex settings"
    and "kept = filter (\<lambda>r. \<exists>cell \<in> set r. TrimSpace cell \<noteq> [])
                  (drop (nat (dataStartIndex settings)) allRows)"
  shows "\<exists>rows. extractDataRows allRows headers settings = Inr rows
           \<and> length rows = length kept
           \<and> (\<forall>i < length kept.
                 dom (rows ! i) = set headers
                 \<and> (\<forall>j < length headers.
                       (\<forall>j'. j < j' \<and> j' < length headers \<longrightarrow> headers ! j' \<noteq> headers ! j) \<longrightarrow>
                       (rows ! i) (headers ! j) =
                         Some (if j < length (kept ! i) then TrimSpace (kept ! i ! j) else [])))"
proof -
  let ?rows = "map (\<lambda>r. fillRowMap r 0 headers Map.empty) kept"
  have k: "kept = filter (\<lambda>r. \<not> isRowEmpty r) (drop (nat (dataStartIndex settings)) allRows)"
    using assms(2) by (simp add: isRowEmpty_iff)
  have e: "extractDataRows allRows headers settings = Inr ?rows"
  proof (cases "dataStartIndex settings \<ge> int (length allRows)")
    case True
    then have "kept = []" using k by simp
    then show ?thesis using True by (simp add: extractDataRows_def)
  next
    case False
    then show ?thesis
      using assms(1) k by (simp add: extractDataRows_def collectDataRows_eq)
  qed
  have p: "\<forall>i < length kept.
             dom (?rows ! i) = set headers
             \<and> (\<forall>j < length headers.
                   (\<forall>j'. j < j' \<and> j' < length headers \<longrightarrow> headers ! j' \<noteq> headers ! j) \<longrightarrow>
                   (?rows ! i) (headers ! j) =
                     Some (if j < length (kept ! i) then TrimSpace (kept ! i ! j) else []))"
    using fillRowMap_lookup [where c = 0 and hs = headers and m = Map.empty]
    by (simp add: fillRowMap_dom)
  show ?thesis using e p by simp
qed
section \<open>Properties of the record grouper\<close>

lemma set_firstAppearances: "set (firstAppearances ks) = set ks"
  by (induction ks) auto

lemma distinct_firstAppearances: "distinct (firstAppearances ks)"
  by (induction ks) auto

lemma firstAppearances_snoc:
  "firstAppearances (ks @ [k]) =
     (if k \<in> set ks then firstAppearances ks else firstAppearances ks @ [k])"
  by (induction ks) auto

lemma length_firstAppearances: "length (firstAppearances ks) = card (set ks)"
  using distinct_card [OF distinct_firstAppearances, of ks]
  by (simp add: set_firstAppearances)

lemma foldl_addRow:
  "foldl (addRow gb) (Map.empty, []) rows =
     (groupsOf gb rows, firstAppearances (map (\<lambda>r. lookupField r gb) rows))"
proof (induction rows rule: rev_induct)
  case Nil
  show ?case by (auto simp: groupsOf_def)
next
  case (snoc x xs)
  let ?k = "lookupField x gb"
  have g: "(groupsOf gb xs)(?k \<mapsto> (case groupsOf gb xs ?k of None \<Rightarrow> [] | Some rs \<Rightarrow> rs) @ [x])
             = groupsOf gb (xs @ [x])"
  proof
    fix k
    show "((groupsOf gb xs)(?k \<mapsto> (case groupsOf gb xs ?k of None \<Rightarrow> [] | Some rs \<Rightarrow> rs) @ [x])) k
            = groupsOf gb (xs @ [x]) k"
    proof (cases "k = ?k")
      case True
      have "filter (\<lambda>r. lookupField r gb = ?k) xs = []" if "?k \<notin> (\<lambda>r. lookupField r gb) ` set xs"
        using that by (force simp: filter_empty_conv image_iff)
      then show ?thesis using True by (auto simp: groupsOf_def)
    next
      case False
      then show ?thesis by (auto simp: groupsOf_def)
    qed
  qed
  have o: "(groupsOf gb xs ?k = None) = (?k \<notin> set (map (\<lambda>r. lookupField r gb) xs))"
    by (auto simp: groupsOf_def)
  show ?case
    using snoc g o by (simp add: addRow_def Let_def firstAppearances_snoc del: fun_upd_apply)
qed

lemma Fields_numberLineItems: "map Fields (numberLineItems c rows) = rows"
  by (induction rows arbitrary: c) auto

lemma GroupKey_groupsToTransactions: "map GroupKey (groupsToTransactions groups ks i c) = ks"
  by (induction ks arbitrary: i c) (auto simp: Let_def)

lemma LineItems_groupsToTransactions:
  "t \<in> set (groupsToTransactions groups ks i c) \<Longrightarrow>
     map Fields (LineItems t) = (case groups (GroupKey t) of None \<Rightarrow> [] | Some rs \<Rightarrow> rs)"
  by (induction ks arbitrary: i c) (auto simp: Let_def Fields_numberLineItems)

lemma length_ungrouped: "length (ungrouped i rows) = length rows"
  by (induction rows arbitrary: i) auto

lemma nth_ungrouped:
  "n < length rows \<Longrightarrow>
     ungrouped i rows ! n =
       \<lparr>TransactionID = i + int n + 1, GroupKey = [],
        LineItems = [\<lparr>LineItemID = i + int n + 1, Fields = rows ! n\<rparr>]\<rparr>"
proof (induction rows arbitrary: i n)
  case Nil
  then show ?case by simp
next
  case (Cons r rows)
  then show ?case by (cases n) (auto simp: add.commute add.left_commute)
qed

text \<open>
  C2. With a grouping field, there is exactly one transaction for each distinct
  key, the transactions come in the order in which their keys appear first, and the
  line items of a transaction are the rows with its key, in input order. Without a
  grouping field every row is a transaction of its own, with that row as its one
  line item.
\<close>

theorem groupTransactions_partition:
  assumes "gb = GroupByField (Grouping deptConfig)"
    and "ts = groupTransactions deptConfig csvData"
    and "keys = map (\<lambda>r. lookupField r gb) (Rows csvData)"
  shows "(gb \<noteq> [] \<longrightarrow>
            map GroupKey ts = firstAppearances keys
            \<and> distinct (map GroupKey ts)
            \<and> length ts = card (set keys)
            \<and> (\<forall>t \<in> set ts.
                  map Fields (LineItems t) =
                    filter (\<lambda>r. lookupField r gb = GroupKey t) (Rows csvData)))
       \<and> (gb = [] \<longrightarrow>
            length ts = length (Rows csvData)
            \<and> (\<forall>n < length (Rows csvData). map Fields (LineItems (ts ! n)) = [Rows csvData ! n]))"
proof (intro conjI impI)
  assume gb: "gb \<noteq> []"
  have ts: "ts = groupsToTransactions (groupsOf gb (Rows csvData)) (firstAppearances keys) 0 1"
    using assms gb by (simp add: groupTransactions_def Let_def foldl_addRow)
  show k: "map GroupKey ts = firstAppearances keys"
    using ts by (simp add: GroupKey_groupsToTransactions)
  show "distinct (map GroupKey ts)" using k by (simp add: distinct_firstAppearances)
  have "length ts = length (map GroupKey ts)" by simp
  then show "length ts = card (set keys)" using k by (simp add: length_firstAppearances)
  show "\<forall>t \<in> set ts. map Fields (LineItems t) =
          filter (\<lambda>r. lookupField r gb = GroupKey t) (Rows csvData)"
  proof
    fix t assume t: "t \<in> set ts"
    then have "GroupKey t \<in> set (map GroupKey ts)" by simp
    then have "GroupKey t \<in> set keys" using k by (simp add: set_firstAppearances)
    then have "groupsOf gb (Rows csvData) (GroupKey t) =
                 Some (filter (\<lambda>r. lookupField r gb = GroupKey t) (Rows csvData))"
      using assms(3) by (auto simp: groupsOf_def)
    then show "map Fields (LineItems t) =
                 filter (\<lambda>r. lookupField r gb = GroupKey t) (Rows csvData)"
      using LineItems_groupsToTransactions t ts by fastforce
  qed
next
  assume gb: "gb = []"
  then have ts: "ts = ungrouped 0 (Rows csvData)"
    using assms by (simp add: groupTransactions_def)
  show "length ts = length (Rows csvData)" using ts by (simp add: length_ungrouped)
  show "\<forall>n < length (Rows csvData). map Fields (LineItems (ts ! n)) = [Rows csvData ! n]"
    using ts by (simp add: nth_ungrouped)
qed
section \<open>Properties of the document assembler\<close>

lemma indexed_staticElements: "indexed (staticElements lib deptConfig parent) = []"
  by (simp add: indexed_def staticElements_def createSimpleElement_def filter_empty_conv)

lemma fieldEntry_simple:
  "(h, e) \<in> set (fieldEntry sch fieldMap oldHeader) \<Longrightarrow> Attributes e = []"
  by (auto simp: fieldEntry_def createSimpleElement_def Let_def split: option.splits if_splits)

lemma indexed_fieldEntries: "indexed (map snd (fieldEntries lib sch fieldNames fieldMap)) = []"
  by (auto simp: indexed_def fieldEntries_def filter_empty_conv dest: fieldEntry_simple)

lemma indexed_append: "indexed (xs @ ys) = indexed xs @ indexed ys"
  by (simp add: indexed_def)

lemma indexed_Nil: "indexed [] = []"
  by (simp add: indexed_def)

lemma buildLineItemElements_indexed:
  "indexed (fst (buildLineItemElements lib sch deptConfig opts lineItems g)) =
     fst (buildLineItemElements lib sch deptConfig opts lineItems g)"
  by (induction lineItems arbitrary: g)
     (auto simp: Let_def indexed_def buildLineItemElement_def)

lemma buildLineItemElements_global:
  assumes "LineItemNumberingGlobal opts"
  shows "map (\<lambda>e. snd (hd (Attributes e)))
           (fst (buildLineItemElements lib sch deptConfig opts lineItems g)) =
           map (\<lambda>k. showInt (g + int k)) [0..<length lineItems]
         \<and> snd (buildLineItemElements lib sch deptConfig opts lineItems g) =
             g + int (length lineItems)"
  using assms
proof (induction lineItems arbitrary: g)
  case Nil
  then show ?case by simp
next
  case (Cons li lis)
  have "[0..<Suc (length lis)] = 0 # map Suc [0..<length lis]"
    by (simp add: upt_conv_Cons map_Suc_upt del: upt_Suc)
  then show ?case
    using Cons.IH [OF Cons.prems, of "g + 1"] Cons.prems
    by (simp add: Let_def buildLineItemElement_def comp_def add.assoc del: upt_Suc)
qed

lemma buildLineItemElements_local:
  assumes "\<not> LineItemNumberingGlobal opts"
  shows "map (\<lambda>e. snd (hd (Attributes e)))
           (fst (buildLineItemElements lib sch deptConfig opts lineItems g)) =
           map (\<lambda>li. showInt (LineItemID li)) lineItems
         \<and> snd (buildLineItemElements lib sch deptConfig opts lineItems g) = g"
  using assms
  by (induction lineItems arbitrary: g) (auto simp: Let_def buildLineItemElement_def)

lemma buildTransactionElement_indices:
  "map (\<lambda>e. snd (hd (Attributes e)))
     (indexed (Children (fst (buildTransactionElement lib t sch deptConfig opts g)))) =
   map (\<lambda>e. snd (hd (Attributes e)))
     (fst (buildLineItemElements lib sch deptConfig opts (LineItems t) g))"
  by (simp add: buildTransactionElement_def Let_def indexed_append indexed_staticElements
      indexed_fieldEntries buildLineItemElements_indexed indexed_Nil split: list.splits)

lemma indexed_buildTransactionElements:
  "indexed (buildTransactionElements lib sch deptConfig opts ts g) =
     buildTransactionElements lib sch deptConfig opts ts g"
  by (induction ts arbitrary: g)
     (auto simp: Let_def indexed_def buildTransactionElement_def)

lemma lineItemIndices_buildDocument:
  "lineItemIndices (buildDocument lib visited ts sch deptConfig opts) =
     map (\<lambda>t. map (\<lambda>e. snd (hd (Attributes e))) (indexed (Children t)))
       (buildTransactionElements lib sch deptConfig opts ts 1)"
  by (simp add: lineItemIndices_def buildDocument_def indexed_append indexed_staticElements
      indexed_buildTransactionElements)

lemma upt_split: "[0..<a + b] = [0..<a] @ map (\<lambda>k. a + k) [0..<b]"
  by (induction b) simp_all

lemma global_indices_run:
  assumes "LineItemNumberingGlobal opts"
  shows "concat (map (\<lambda>t. map (\<lambda>e. snd (hd (Attributes e))) (indexed (Children t)))
           (buildTransactionElements lib sch deptConfig opts ts g)) =
         map (\<lambda>k. showInt (g + int k)) [0..<sum_list (map (\<lambda>t. length (LineItems t)) ts)]"
proof (induction ts arbitrary: g)
  case Nil
  show ?case by simp
next
  case (Cons t ts)
  let ?n = "length (LineItems t)"
  let ?m = "sum_list (map (\<lambda>t. length (LineItems t)) ts)"
  note b = buildLineItemElements_global [OF assms, of lib sch deptConfig "LineItems t" g]
  have s: "snd (buildTransactionElement lib t sch deptConfig opts g) = g + int ?n"
    using b by (simp add: buildTransactionElement_def Let_def)
  have h: "map (\<lambda>e. snd (hd (Attributes e)))
             (indexed (Children (fst (buildTransactionElement lib t sch deptConfig opts g)))) =
           map (\<lambda>k. showInt (g + int k)) [0..<?n]"
    using b by (simp add: buildTransactionElement_indices)
  have r: "concat (map (\<lambda>t. map (\<lambda>e. snd (hd (Attributes e))) (indexed (Children t)))
             (buildTransactionElements lib sch deptConfig opts ts (g + int ?n))) =
           map (\<lambda>k. showInt (g + int ?n + int k)) [0..<?m]"
    using Cons.IH [of "g + int ?n"] .
  have u: "map (\<lambda>k. showInt (g + int k)) [0..<?n + ?m] =
           map (\<lambda>k. showInt (g + int k)) [0..<?n] @ map (\<lambda>k. showInt (g + int ?n + int k)) [0..<?m]"
    by (simp only: upt_split map_append map_map comp_def of_nat_add add.assoc)
  show ?case
    using s h r u by (simp add: Let_def del: upt_Suc)
qed

lemma upto_as_upt: "map (\<lambda>k. 1 + int k) [0..<n] = [1..int n]"
proof (induction n)
  case 0
  show ?case by simp
next
  case (Suc n)
  have "[1..int (Suc n)] = [1..int n] @ [int n + 1]"
    using upto_rec2 [of 1 "int n + 1"] by (simp add: add.commute)
  then show ?case using Suc by (simp add: add.commute)
qed

lemma global_numbering:
  assumes "LineItemNumberingGlobal opts"
  shows "concat (lineItemIndices (buildDocument lib visited ts sch deptConfig opts)) =
           map showInt [1..int (sum_list (map (\<lambda>t. length (LineItems t)) ts))]"
  using global_indices_run [OF assms, of lib sch deptConfig ts 1]
  by (simp add: lineItemIndices_buildDocument upto_as_upt [symmetric] comp_def)

lemma local_indices_run:
  assumes "\<not> LineItemNumberingGlobal opts"
  shows "map (\<lambda>t. map (\<lambda>e. snd (hd (Attributes e))) (indexed (Children t)))
           (buildTransactionElements lib sch deptConfig opts ts g) =
         map (\<lambda>t. map (\<lambda>li. showInt (LineItemID li)) (LineItems t)) ts"
proof (induction ts arbitrary: g)
  case Nil
  show ?case by simp
next
  case (Cons t ts)
  note b = buildLineItemElements_local [OF assms, of lib sch deptConfig "LineItems t" g]
  have s: "snd (buildTransactionElement lib t sch deptConfig opts g) = g"
    using b by (simp add: buildTransactionElement_def Let_def)
  have h: "map (\<lambda>e. snd (hd (Attributes e)))
             (indexed (Children (fst (buildTransactionElement lib t sch deptConfig opts g)))) =
           map (\<lambda>li. showInt (LineItemID li)) (LineItems t)"
    using b by (simp add: buildTransactionElement_indices)
  show ?case
    using Cons.IH [of g] s h by (simp add: Let_def)
qed

lemma set_getOrderedFields:
  assumes "\<forall>lt xs. mset (SortSlice lib lt xs) = mset xs"
  shows "set (getOrderedFields lib fieldNames sch) = set fieldNames"
proof -
  have "mset (SortSlice lib (lessByOrder sch) fieldNames) = mset fieldNames"
    using assms by blast
  then show ?thesis unfolding getOrderedFields_def by (rule mset_eq_setD)
qed

lemma fieldEntry_mem:
  "(h, e) \<in> set (fieldEntry sch fieldMap x) \<longleftrightarrow>
     h = x \<and> (\<exists>m. GetFieldMapping sch x = Some m
                  \<and> (lookupField fieldMap x \<noteq> [] \<or> RequiredType m = ''required'')
                  \<and> e = createSimpleElement (XMLTag m) (lookupField fieldMap x))"
  by (cases "GetFieldMapping sch x") (auto simp: fieldEntry_def Let_def)

lemma fieldEntries_mem:
  assumes "\<forall>lt xs. mset (SortSlice lib lt xs) = mset xs"
  shows "(h, e) \<in> set (fieldEntries lib sch fieldNames fieldMap) \<longleftrightarrow>
           h \<in> set fieldNames
           \<and> (\<exists>m. GetFieldMapping sch h = Some m
                  \<and> (lookupField fieldMap h \<noteq> [] \<or> RequiredType m = ''required'')
                  \<and> e = createSimpleElement (XMLTag m) (lookupField fieldMap h))"
proof -
  have "(h, e) \<in> set (fieldEntries lib sch fieldNames fieldMap) \<longleftrightarrow>
          (\<exists>x \<in> set (getOrderedFields lib fieldNames sch). (h, e) \<in> set (fieldEntry sch fieldMap x))"
    by (auto simp: fieldEntries_def)
  also have "\<dots> \<longleftrightarrow> (\<exists>x \<in> set fieldNames. (h, e) \<in> set (fieldEntry sch fieldMap x))"
    by (simp only: set_getOrderedFields [OF assms])
  also have "\<dots> \<longleftrightarrow> h \<in> set fieldNames
           \<and> (\<exists>m. GetFieldMapping sch h = Some m
                  \<and> (lookupField fieldMap h \<noteq> [] \<or> RequiredType m = ''required'')
                  \<and> e = createSimpleElement (XMLTag m) (lookupField fieldMap h))"
    by (simp only: fieldEntry_mem) blast
  finally show ?thesis .
qed

text \<open>
  C8. With \<open>sort.Slice\<close> leaving a permutation of the field names, the children
  of a line item element are the static fields and then one element for each
  line-item field of the schema that is emitted; a field with a mapping is emitted if
  and only if its value is not empty or its mapping is \<open>required\<close>, so a required
  field with an empty value is emitted. The same holds for the transaction-level
  fields of a transaction, whose values are those of its first line item.
\<close>

theorem schema_field_emitted_iff:
  assumes "\<forall>lt xs. mset (SortSlice lib lt xs) = mset xs"
  shows "Children (buildLineItemElement lib lineItem sch deptConfig opts g) =
           staticElements lib deptConfig ''lineitem''
           @ map snd (fieldEntries lib sch (LineItemFields sch) (Fields lineItem))
       \<and> (\<forall>h m. h \<in> set (LineItemFields sch) \<and> GetFieldMapping sch h = Some m \<longrightarrow>
             ((h, createSimpleElement (XMLTag m) (lookupField (Fields lineItem) h))
                \<in> set (fieldEntries lib sch (LineItemFields sch) (Fields lineItem)))
             = (lookupField (Fields lineItem) h \<noteq> [] \<or> RequiredType m = ''required''))
       \<and> (\<forall>firstLineItem others. LineItems transaction = firstLineItem # others \<longrightarrow>
             Children (fst (buildTransactionElement lib transaction sch deptConfig opts g)) =
               staticElements lib deptConfig ''transaction''
               @ map snd (fieldEntries lib sch (TransactionFields sch) (Fields firstLineItem))
               @ fst (buildLineItemElements lib sch deptConfig opts (LineItems transaction) g)
             \<and> (\<forall>h m. h \<in> set (TransactionFields sch) \<and> GetFieldMapping sch h = Some m \<longrightarrow>
                   ((h, createSimpleElement (XMLTag m) (lookupField (Fields firstLineItem) h))
                      \<in> set (fieldEntries lib sch (TransactionFields sch) (Fields firstLineItem)))
                   = (lookupField (Fields firstLineItem) h \<noteq> []
                      \<or> RequiredType m = ''required'')))"
proof (intro conjI allI impI)
  show "Children (buildLineItemElement lib lineItem sch deptConfig opts g) =
           staticElements lib deptConfig ''lineitem''
           @ map snd (fieldEntries lib sch (LineItemFields sch) (Fields lineItem))"
    by (simp add: buildLineItemElement_def Let_def)
next
  fix h m
  assume "h \<in> set (LineItemFields sch) \<and> GetFieldMapping sch h = Some m"
  then show "((h, createSimpleElement (XMLTag m) (lookupField (Fields lineItem) h))
                \<in> set (fieldEntries lib sch (LineItemFields sch) (Fields lineItem)))
             = (lookupField (Fields lineItem) h \<noteq> [] \<or> RequiredType m = ''required'')"
    by (simp add: fieldEntries_mem [OF assms])
next
  fix firstLineItem others
  assume "LineItems transaction = firstLineItem # others"
  then show "Children (fst (buildTransactionElement lib transaction sch deptConfig opts g)) =
               staticElements lib deptConfig ''transaction''
               @ map snd (fieldEntries lib sch (TransactionFields sch) (Fields firstLineItem))
               @ fst (buildLineItemElements lib sch deptConfig opts (LineItems transaction) g)"
    by (simp add: buildTransactionElement_def Let_def)
next
  fix firstLineItem others h m
  assume "h \<in> set (TransactionFields sch) \<and> GetFieldMapping sch h = Some m"
  then show "((h, createSimpleElement (XMLTag m) (lookupField (Fields firstLineItem) h))
                \<in> set (fieldEntries lib sch (TransactionFields sch) (Fields firstLineItem)))
             = (lookupField (Fields firstLineItem) h \<noteq> [] \<or> RequiredType m = ''required'')"
    by (simp add: fieldEntries_mem [OF assms])
qed

lemma mset_insertBy: "mset (insertBy lt x xs) = add_mset x (mset xs)"
  by (induction xs) auto

lemma sampleLib_sorts: "\<forall>lt xs. mset (SortSlice sampleLib lt xs) = mset xs"
proof (intro allI)
  fix lt :: "string \<Rightarrow> string \<Rightarrow> bool" and xs
  show "mset (SortSlice sampleLib lt xs) = mset xs"
    by (induction xs) (simp_all add: sampleLib_def mset_insertBy)
qed

section \<open>Properties of the serialisation\<close>

lemma byte_less: "byte c < 256"
  by (simp add: byte_def)

lemma char_of_byte: "char_of (byte c) = c"
  by (simp add: byte_def)

lemma byte_char_of: "(n::nat) < 256 \<Longrightarrow> byte (char_of n) = n"
  by (simp add: byte_def)

lemma mod_shift: "x < m \<Longrightarrow> (k * m + x) mod m = (x::nat)"
  by simp

lemma div_shift: "x < m \<Longrightarrow> (k * m + x) div m = (k::nat)"
  by simp

lemma lead2: "x < 32 \<Longrightarrow> (192 + x) mod 32 = (x::nat)"
  using mod_shift [of x 32 6] by simp

lemma lead3: "x < 16 \<Longrightarrow> (224 + x) mod 16 = (x::nat)"
  using mod_shift [of x 16 14] by simp

lemma lead4: "x < 8 \<Longrightarrow> (240 + x) mod 8 = (x::nat)"
  using mod_shift [of x 8 30] by simp

lemma cont: "y < 64 \<Longrightarrow> (128 + y) mod 64 = (y::nat)"
  using mod_shift [of y 64 2] by simp

lemma flat3: "x * 4096 + y * 64 + z = (x * 64 + y) * 64 + (z::nat)"
  by simp

lemma flat4: "x * 262144 + y * 4096 + z * 64 + w = ((x * 64 + y) * 64 + z) * 64 + (w::nat)"
  by simp

lemma div4096: "(r::nat) div 4096 = r div 64 div 64"
  using div_mult2_eq [of r 64 64] by simp

lemma div262144: "(r::nat) div 262144 = r div 64 div 64 div 64"
  using div_mult2_eq [of r 4096 64] by (simp add: div4096)

lemma enc2:
  assumes "2 \<le> x" "x < 32" "y < 64"
  shows "EncodeRune (x * 64 + y) = [char_of (192 + x), char_of (128 + y)]"
proof -
  have "128 \<le> x * 64 + y" using assms by simp
  moreover have "x * 64 + y < 2048" using assms by simp
  ultimately show ?thesis using assms by (simp add: EncodeRune_def)
qed

lemma enc3:
  assumes "x < 16" "y < 64" "z < 64" "x = 0 \<longrightarrow> 32 \<le> y" "x = 13 \<longrightarrow> y < 32"
  shows "EncodeRune ((x * 64 + y) * 64 + z) =
           [char_of (224 + x), char_of (128 + y), char_of (128 + z)]"
proof -
  let ?r = "(x * 64 + y) * 64 + z"
  have lo: "2048 \<le> ?r"
  proof (cases "x = 0")
    case True
    then show ?thesis using assms by simp
  next
    case False
    then have "1 \<le> x" by simp
    then have "64 \<le> x * 64 + y" by simp
    then show ?thesis by simp
  qed
  have hi: "?r < 65536" using assms by simp
  have sur: "\<not> (55296 \<le> ?r \<and> ?r \<le> 57343)"
  proof (cases "x = 13")
    case True
    then have "x * 64 + y \<le> 863" using assms by simp
    then have "?r \<le> 863 * 64 + 63" using assms(3) by simp
    then show ?thesis by simp
  next
    case False
    then consider "x \<le> 12" | "14 \<le> x" by linarith
    then show ?thesis
    proof cases
      case 1
      then have "x * 64 + y \<le> 831" using assms(2) by simp
      then have "?r \<le> 831 * 64 + 63" using assms(3) by simp
      then show ?thesis by simp
    next
      case 2
      then have "896 \<le> x * 64 + y" by simp
      then have "57344 \<le> ?r" by simp
      then show ?thesis by simp
    qed
  qed
  have d1: "?r div 64 = x * 64 + y" using assms(3) by (rule div_shift)
  have d2: "?r div 4096 = x" unfolding div4096 d1 using assms(2) by (rule div_shift)
  have d3: "?r mod 64 = z" using assms(3) by (rule mod_shift)
  have d4: "?r div 64 mod 64 = y" unfolding d1 using assms(2) by (rule mod_shift)
  have n1: "(?r < 128) = False" "(?r < 2048) = False" "(1114111 < ?r) = False"
    "(?r < 65536) = True" "(55296 \<le> ?r \<and> ?r \<le> 57343) = False"
    using lo hi sur by simp_all
  show ?thesis
    by (simp only: EncodeRune_def n1 d2 d3 d4 if_False if_True simp_thms)
qed

lemma enc4:
  assumes "x < 5" "y < 64" "z < 64" "w < 64" "x = 0 \<longrightarrow> 16 \<le> y" "x = 4 \<longrightarrow> y < 16"
  shows "EncodeRune (((x * 64 + y) * 64 + z) * 64 + w) =
           [char_of (240 + x), char_of (128 + y), char_of (128 + z), char_of (128 + w)]"
proof -
  let ?q = "(x * 64 + y) * 64 + z"
  let ?r = "?q * 64 + w"
  have lo: "65536 \<le> ?r"
  proof (cases "x = 0")
    case True
    then have "16 \<le> x * 64 + y" using assms by simp
    then have "1024 \<le> ?q" by simp
    then show ?thesis by simp
  next
    case False
    then have "64 \<le> x * 64 + y" by simp
    then have "4096 \<le> ?q" by simp
    then show ?thesis by simp
  qed
  have hi: "?r \<le> 1114111"
  proof (cases "x = 4")
    case True
    then have "x * 64 + y \<le> 271" using assms by simp
    then have "?q \<le> 271 * 64 + 63" using assms(3) by simp
    then have "?r \<le> (271 * 64 + 63) * 64 + 63" using assms(4) by simp
    then show ?thesis by simp
  next
    case False
    then have "x \<le> 3" using assms(1) by simp
    then have "x * 64 + y \<le> 255" using assms(2) by simp
    then have "?q \<le> 255 * 64 + 63" using assms(3) by simp
    then have "?r \<le> (255 * 64 + 63) * 64 + 63" using assms(4) by simp
    then show ?thesis by simp
  qed
  have d1: "?r div 64 = ?q" using assms(4) by (rule div_shift)
  have e1: "?q div 64 = x * 64 + y" using assms(3) by (rule div_shift)
  have d2: "?r div 4096 = x * 64 + y" unfolding div4096 d1 e1 ..
  have d3: "?r div 262144 = x" unfolding div262144 d1 e1 using assms(2) by (rule div_shift)
  have d4: "?r mod 64 = w" using assms(4) by (rule mod_shift)
  have d5: "?r div 64 mod 64 = z" unfolding d1 using assms(3) by (rule mod_shift)
  have d6: "?r div 4096 mod 64 = y" unfolding d2 using assms(2) by (rule mod_shift)
  have n1: "(?r < 128) = False" "(?r < 2048) = False" "(1114111 < ?r) = False"
    "(?r < 65536) = False" "(55296 \<le> ?r \<and> ?r \<le> 57343) = False"
    using lo hi by simp_all
  show ?thesis
    by (simp only: EncodeRune_def n1 d3 d4 d5 d6 if_False if_True simp_thms)
qed


lemma enc1: "a < 128 \<Longrightarrow> EncodeRune a = [char_of a]"
  by (simp add: EncodeRune_def)

lemma decode_valid:
  assumes "DecodeRuneInString (c # cs) \<noteq> (RuneError, 1)"
  shows "EncodeRune (fst (DecodeRuneInString (c # cs))) =
           take (snd (DecodeRuneInString (c # cs))) (c # cs)
         \<and> (if byte c < 128 then DecodeRuneInString (c # cs) = (byte c, 1)
            else 128 \<le> fst (DecodeRuneInString (c # cs)))"
proof -
  let ?s0 = "byte c"
  consider (ascii) "?s0 < 128" | (bad) "128 \<le> ?s0" "?s0 < 194 \<or> 244 < ?s0"
    | (two) "194 \<le> ?s0" "?s0 < 224" | (three) "224 \<le> ?s0" "?s0 < 240"
    | (four) "240 \<le> ?s0" "?s0 \<le> 244"
    by linarith
  then show ?thesis
  proof cases
    case ascii
    then show ?thesis by (simp add: enc1 char_of_byte)
  next
    case bad
    then have "DecodeRuneInString (c # cs) = (RuneError, 1)" by auto
    then show ?thesis using assms by simp
  next
    case two
    define x where "x = ?s0 - 192"
    have x: "?s0 = 192 + x" "2 \<le> x" "x < 32" using two by (simp_all add: x_def)
    obtain c1 cs' where cs: "cs = c1 # cs'"
      using assms two by (cases cs) (auto simp: Let_def)
    define y where "y = byte c1 - 128"
    have r1: "128 \<le> byte c1 \<and> byte c1 \<le> 191"
      using assms two cs by (auto simp: Let_def split: if_splits)
    have y: "byte c1 = 128 + y" "y < 64" using r1 by (auto simp: y_def)
    have d: "DecodeRuneInString (c # cs) = (x * 64 + y, 2)"
      using two cs r1 lead2 [OF x(3)] cont [OF y(2)] x y
      by (auto simp: Let_def split: if_splits)
    have e: "EncodeRune (x * 64 + y) = [c, c1]"
      using enc2 [OF x(2) x(3) y(2)] x(1) y(1) char_of_byte [of c] char_of_byte [of c1]
      by simp
    have "128 \<le> x * 64 + y" using x(2) by simp
    then show ?thesis using d e cs two by simp
  next
    case three
    define x where "x = ?s0 - 224"
    have x: "?s0 = 224 + x" "x < 16" using three by (simp_all add: x_def)
    obtain c1 c2 cs' where cs: "cs = c1 # c2 # cs'"
    proof (cases cs)
      case Nil
      then show ?thesis using assms three by (simp add: Let_def)
    next
      case (Cons a as)
      then show ?thesis using assms three that by (cases as) (auto simp: Let_def)
    qed
    have r1: "(if ?s0 = 224 then 160 else 128) \<le> byte c1
              \<and> byte c1 \<le> (if ?s0 = 237 then 159 else 191)"
      using assms three cs by (auto simp: Let_def split: if_splits)
    have r2: "contByte (byte c2)"
      using assms three cs r1 by (auto simp: Let_def split: if_splits)
    define y where "y = byte c1 - 128"
    define z where "z = byte c2 - 128"
    have y: "byte c1 = 128 + y" "y < 64" using r1 by (auto simp: y_def split: if_splits)
    have z: "byte c2 = 128 + z" "z < 64" using r2 by (auto simp: z_def contByte_def)
    have c0: "x = 0 \<longrightarrow> 32 \<le> y" using r1 x(1) by (auto simp: y_def split: if_splits)
    have c13: "x = 13 \<longrightarrow> y < 32" using r1 x(1) by (auto simp: y_def split: if_splits)
    have d: "DecodeRuneInString (c # cs) = ((x * 64 + y) * 64 + z, 3)"
      using three cs r1 r2 lead3 [OF x(2)] cont [OF y(2)] cont [OF z(2)] x y z c0 c13
      by (auto simp: Let_def split: if_splits)
    have e: "EncodeRune ((x * 64 + y) * 64 + z) = [c, c1, c2]"
      using enc3 [OF x(2) y(2) z(2) c0 c13] x(1) y(1) z(1)
        char_of_byte [of c] char_of_byte [of c1] char_of_byte [of c2]
      by simp
    have "64 \<le> (x * 64 + y) * 64" using c0 by (cases "x = 0") simp_all
    then have "128 \<le> (x * 64 + y) * 64 + z" using c0 by (cases "x = 0") simp_all
    then show ?thesis using d e cs three by simp
  next
    case four
    define x where "x = ?s0 - 240"
    have x: "?s0 = 240 + x" "x < 5" using four by (simp_all add: x_def)
    obtain c1 c2 c3 cs' where cs: "cs = c1 # c2 # c3 # cs'"
    proof (cases cs)
      case Nil
      then show ?thesis using assms four by (simp add: Let_def)
    next
      case (Cons a as)
      show ?thesis
      proof (cases as)
        case Nil
        then show ?thesis using assms four Cons by (simp add: Let_def)
      next
        case (Cons b bs)
        then show ?thesis using assms four that \<open>cs = a # as\<close> by (cases bs) (auto simp: Let_def)
      qed
    qed
    have r1: "(if ?s0 = 240 then 144 else 128) \<le> byte c1
              \<and> byte c1 \<le> (if ?s0 = 244 then 143 else 191)"
      using assms four cs by (auto simp: Let_def split: if_splits)
    have r2: "contByte (byte c2)"
      using assms four cs r1 by (auto simp: Let_def split: if_splits)
    have r3: "contByte (byte c3)"
      using assms four cs r1 r2 by (auto simp: Let_def split: if_splits)
    define y where "y = byte c1 - 128"
    define z where "z = byte c2 - 128"
    define w where "w = byte c3 - 128"
    have y: "byte c1 = 128 + y" "y < 64" using r1 by (auto simp: y_def split: if_splits)
    have z: "byte c2 = 128 + z" "z < 64" using r2 by (auto simp: z_def contByte_def)
    have w: "byte c3 = 128 + w" "w < 64" using r3 by (auto simp: w_def contByte_def)
    have c0: "x = 0 \<longrightarrow> 16 \<le> y" using r1 x(1) by (auto simp: y_def split: if_splits)
    have c4: "x = 4 \<longrightarrow> y < 16" using r1 x(1) by (auto simp: y_def split: if_splits)
    have x8: "x < 8" using x(2) by simp
    have d: "DecodeRuneInString (c # cs) = (((x * 64 + y) * 64 + z) * 64 + w, 4)"
      using four cs r1 r2 r3 lead4 [OF x8] cont [OF y(2)] cont [OF z(2)] cont [OF w(2)]
        x y z w c0 c4
      by (auto simp: Let_def split: if_splits)
    have e: "EncodeRune (((x * 64 + y) * 64 + z) * 64 + w) = [c, c1, c2, c3]"
      using enc4 [OF x(2) y(2) z(2) w(2) c0 c4] x(1) y(1) z(1) w(1)
        char_of_byte [of c] char_of_byte [of c1] char_of_byte [of c2] char_of_byte [of c3]
      by simp
    have "16 \<le> x * 64 + y" using c0 by (cases "x = 0") simp_all
    then have "128 \<le> ((x * 64 + y) * 64 + z) * 64 + w" by simp
    then show ?thesis using d e cs four by simp
  qed
qed


lemma escapeXML_Nil: "escapeXML [] = []"
  by (simp add: escapeXML_def runes.simps)

lemma escapeXML_step:
  "s \<noteq> [] \<Longrightarrow>
     escapeXML s = escapeRune (fst (DecodeRuneInString s))
                   @ escapeXML (drop (snd (DecodeRuneInString s)) s)"
  by (subst escapeXML_def, subst runes.simps) (simp add: escapeXML_def)

lemma unescape_plain: "CHR ''&'' \<notin> set bs \<Longrightarrow> unescapeXML (bs @ t) = bs @ unescapeXML t"
  by (induction bs) auto

lemma char_of_lit: "byte c = n \<Longrightarrow> char_of n = c"
  using char_of_byte [of c] by simp

lemma char_of_not_amp:
  assumes "(n::nat) < 256" "n \<noteq> 38"
  shows "char_of n \<noteq> CHR ''&''"
proof
  assume "char_of n = CHR ''&''"
  then have "byte (char_of n) = byte (CHR ''&'')" by simp
  moreover have "byte (char_of n) = n" using assms(1) by (rule byte_char_of)
  moreover have "byte (CHR ''&'') = 38" by (simp add: byte_def)
  ultimately show False using assms(2) by simp
qed

lemma byte_hi: "128 \<le> (n::nat) \<Longrightarrow> n < 256 \<Longrightarrow> 128 \<le> byte (char_of n)"
  by (simp add: byte_char_of)

lemma EncodeRune_high:
  assumes "128 \<le> r" "b \<in> set (EncodeRune r)"
  shows "128 \<le> byte b"
proof -
  consider (b) "r < 2048"
    | (c) "2048 \<le> r" "1114111 < r \<or> (55296 \<le> r \<and> r \<le> 57343)"
    | (d) "2048 \<le> r" "r < 65536" "\<not> (55296 \<le> r \<and> r \<le> 57343)"
    | (e) "65536 \<le> r" "r \<le> 1114111"
    by linarith
  then show ?thesis
  proof cases
    case b
    have 1: "r div 64 < 32" using b by simp
    have "EncodeRune r = [char_of (192 + r div 64), char_of (128 + r mod 64)]"
      using b assms(1) by (simp add: EncodeRune_def)
    then have "b = char_of (192 + r div 64) \<or> b = char_of (128 + r mod 64)"
      using assms(2) by simp
    then show ?thesis
      using byte_hi [of "192 + r div 64"] byte_hi [of "128 + r mod 64"] 1 by auto
  next
    case c
    have "EncodeRune r = [char_of (239::nat), char_of (191::nat), char_of (189::nat)]"
      using c by (auto simp: EncodeRune_def)
    then have "b = char_of (239::nat) \<or> b = char_of (191::nat) \<or> b = char_of (189::nat)"
      using assms(2) by simp
    then show ?thesis
      using byte_hi [of 239] byte_hi [of 191] byte_hi [of 189] by auto
  next
    case d
    have 1: "r div 4096 < 16" using d by simp
    have "EncodeRune r = [char_of (224 + r div 4096), char_of (128 + (r div 64) mod 64),
                          char_of (128 + r mod 64)]"
      using d by (auto simp: EncodeRune_def)
    then have "b = char_of (224 + r div 4096) \<or> b = char_of (128 + (r div 64) mod 64)
               \<or> b = char_of (128 + r mod 64)"
      using assms(2) by simp
    then show ?thesis
      using byte_hi [of "224 + r div 4096"] byte_hi [of "128 + (r div 64) mod 64"]
        byte_hi [of "128 + r mod 64"] 1 by auto
  next
    case e
    have 1: "r div 262144 < 5" using e by simp
    have "EncodeRune r = [char_of (240 + r div 262144), char_of (128 + (r div 4096) mod 64),
                          char_of (128 + (r div 64) mod 64), char_of (128 + r mod 64)]"
      using e by (auto simp: EncodeRune_def)
    then have "b = char_of (240 + r div 262144) \<or> b = char_of (128 + (r div 4096) mod 64)
               \<or> b = char_of (128 + (r div 64) mod 64) \<or> b = char_of (128 + r mod 64)"
      using assms(2) by simp
    then show ?thesis
      using byte_hi [of "240 + r div 262144"] byte_hi [of "128 + (r div 4096) mod 64"]
        byte_hi [of "128 + (r div 64) mod 64"] byte_hi [of "128 + r mod 64"] 1 by auto
  qed
qed

lemma amp_notin_EncodeRune: "r \<noteq> 38 \<Longrightarrow> CHR ''&'' \<notin> set (EncodeRune r)"
proof
  assume r: "r \<noteq> 38" and m: "CHR ''&'' \<in> set (EncodeRune r)"
  have a: "byte (CHR ''&'') = 38" by (simp add: byte_def)
  show False
  proof (cases "r < 128")
    case True
    then have "CHR ''&'' = char_of r" using m by (simp add: enc1)
    then show False using char_of_not_amp [of r] r True by simp
  next
    case False
    then have "128 \<le> byte (CHR ''&'')" using EncodeRune_high [OF _ m] by simp
    then show False using a by simp
  qed
qed

lemma EncodeRune_reserved:
  "EncodeRune 38 = ''&''" "EncodeRune 60 = ''<''" "EncodeRune 62 = ''>''"
  "EncodeRune 34 = [dquote]" "EncodeRune 39 = [apostrophe]"
  by (simp_all add: EncodeRune_def dquote_def apostrophe_def char_of_lit byte_def)

lemma unescape_escapeRune: "unescapeXML (escapeRune r @ t) = EncodeRune r @ unescapeXML t"
proof -
  consider "r = 38" | "r = 60" | "r = 62" | "r = 34" | "r = 39"
    | "r \<noteq> 38" "r \<noteq> 60" "r \<noteq> 62" "r \<noteq> 34" "r \<noteq> 39" by blast
  then show ?thesis
  proof cases
    case 6
    then have "escapeRune r = EncodeRune r" by (simp add: escapeRune_def)
    then show ?thesis using unescape_plain [OF amp_notin_EncodeRune [OF 6(1)]] by simp
  qed (simp_all add: escapeRune_def EncodeRune_reserved HasPrefix_def)
qed

lemma unescape_escape_runes: "unescapeXML (escapeXML s) = concat (map EncodeRune (runes s))"
proof (induction s rule: runes.induct)
  case (1 s)
  show ?case
  proof (cases "s = []")
    case True
    then show ?thesis by (simp add: escapeXML_Nil runes.simps)
  next
    case False
    then show ?thesis
      using "1.IH" [OF False]
      by (subst runes.simps) (simp add: escapeXML_step unescape_escapeRune)
  qed
qed


lemma ValidString_step:
  "s \<noteq> [] \<Longrightarrow>
     ValidString s = (DecodeRuneInString s \<noteq> (RuneError, 1)
                      \<and> ValidString (drop (snd (DecodeRuneInString s)) s))"
  by (subst ValidString.simps) simp

lemma escapeByte_high: "128 \<le> byte b \<Longrightarrow> escapeByte b = [b]"
  by (auto simp: escapeByte_def byte_def dquote_def apostrophe_def)

lemma escapeByte_plain: "\<forall>b \<in> set bs. 128 \<le> byte b \<Longrightarrow> concat (map escapeByte bs) = bs"
  by (induction bs) (simp_all add: escapeByte_high)

lemma byte_eq_iff: "byte c = byte d \<longleftrightarrow> c = d"
  by (simp add: byte_def)

lemma escapeRune_ascii: "byte c < 128 \<Longrightarrow> escapeRune (byte c) = escapeByte c"
proof -
  assume a: "byte c < 128"
  have b: "byte (CHR ''&'') = 38" "byte (CHR ''<'') = 60" "byte (CHR ''>'') = 62"
    "byte dquote = 34" "byte apostrophe = 39"
    by (simp_all add: byte_def dquote_def apostrophe_def)
  have e: "(byte c = 38) = (c = CHR ''&'')" "(byte c = 60) = (c = CHR ''<'')"
    "(byte c = 62) = (c = CHR ''>'')" "(byte c = 34) = (c = dquote)"
    "(byte c = 39) = (c = apostrophe)"
    using byte_eq_iff [of c] b by metis+
  show ?thesis
    using a by (simp add: escapeRune_def escapeByte_def e enc1 char_of_byte)
qed

lemma valid_escape:
  "ValidString s \<Longrightarrow>
     escapeXML s = concat (map escapeByte s) \<and> concat (map EncodeRune (runes s)) = s"
proof (induction s rule: runes.induct)
  case (1 s)
  show ?case
  proof (cases s)
    case Nil
    then show ?thesis by (simp add: escapeXML_Nil runes.simps)
  next
    case (Cons c cs)
    let ?r = "fst (DecodeRuneInString s)"
    let ?w = "snd (DecodeRuneInString s)"
    have ne: "s \<noteq> []" using Cons by simp
    have v: "DecodeRuneInString s \<noteq> (RuneError, 1)" "ValidString (drop ?w s)"
      using "1.prems" ValidString_step [OF ne] by simp_all
    note d = decode_valid [of c cs] v(1) [unfolded Cons]
    have enc: "EncodeRune ?r = take ?w s" using d Cons by simp
    have ih: "escapeXML (drop ?w s) = concat (map escapeByte (drop ?w s))"
      "concat (map EncodeRune (runes (drop ?w s))) = drop ?w s"
      using "1.IH" [OF ne v(2)] by simp_all
    have esc: "escapeRune ?r = concat (map escapeByte (take ?w s))"
    proof (cases "byte c < 128")
      case True
      then have "DecodeRuneInString s = (byte c, 1)" using d Cons by simp
      then show ?thesis using True Cons by (simp add: escapeRune_ascii)
    next
      case False
      then have hi: "128 \<le> ?r" using d Cons by simp
      then have "escapeRune ?r = EncodeRune ?r" by (simp add: escapeRune_def)
      moreover have "concat (map escapeByte (EncodeRune ?r)) = EncodeRune ?r"
        using EncodeRune_high [OF hi] by (intro escapeByte_plain) simp
      ultimately show ?thesis using enc by simp
    qed
    have td: "take ?w s @ drop ?w s = s" by simp
    have "escapeXML s = concat (map escapeByte (take ?w s)) @ concat (map escapeByte (drop ?w s))"
      using escapeXML_step [OF ne] esc ih(1) by simp
    also have "\<dots> = concat (map escapeByte (take ?w s @ drop ?w s))"
      by (simp only: map_append concat_append)
    finally have a: "escapeXML s = concat (map escapeByte s)" by (simp only: td)
    have "runes s = ?r # runes (drop ?w s)" using ne by (subst runes.simps) simp
    then have "concat (map EncodeRune (runes s)) = take ?w s @ drop ?w s"
      using enc ih(2) by simp
    then have b: "concat (map EncodeRune (runes s)) = s" by (simp only: td)
    show ?thesis using a b by simp
  qed
qed


lemma runes_ff: "runes [CHR 0xFF] = [65533]"
  by (subst runes.simps, simp add: byte_def RuneError_def, subst runes.simps, simp)


text \<open>
  C7, as the code has it. \<open>escapeXML\<close> reads its argument rune by rune, so a byte
  that is not part of a valid UTF-8 encoding is read as U+FFFD and written out as the
  three bytes of U+FFFD: on the one-byte string \<open>0xFF\<close> the output is not the input,
  though no reserved character is involved, and reading it back does not give the
  input.
\<close>

theorem escapeXML_invalid_byte:
  "escapeXML [CHR 0xFF] = [CHR 0xEF, CHR 0xBF, CHR 0xBD]
   \<and> unescapeXML (escapeXML [CHR 0xFF]) \<noteq> [CHR 0xFF]"
proof -
  have "escapeXML [CHR 0xFF] = [CHR 0xEF, CHR 0xBF, CHR 0xBD]"
    by (simp add: escapeXML_def runes_ff escapeRune_def EncodeRune_def char_of_lit byte_def)
  then show ?thesis by simp
qed

text \<open>
  C7, amended. For every string that is valid UTF-8, \<open>escapeXML\<close> replaces exactly
  the five reserved characters by their entity references and leaves every other
  byte as it is, and reading the escaped text back gives the string again.
\<close>

theorem escapeXML_roundtrip_valid:
  assumes "ValidString s"
  shows "escapeXML s = concat (map escapeByte s) \<and> unescapeXML (escapeXML s) = s"
  using valid_escape [OF assms] unescape_escape_runes [of s] by simp

end
